theory Spec2Isabelle
  imports Main
begin

section \<open>The avatar slicing script (src/frontend/slice_avatars.py)\<close>

text \<open>
  The script is a straight line of effects on the file system and on the console:
  it imports Pillow, makes sure the destination directory exists, opens one image,
  computes four crop boxes, and crops and saves four files, printing one line per file.
  The model threads an explicit \<open>world\<close> (directories, files, the two console streams
  and a journal of the file-system effects) through the statements of the script, in the
  order in which the script runs them. An exception is a value: every library call
  returns \<open>exn + result\<close>, and the body of the \<^verbatim>\<open>try\<close> block returns the world it
  reached together with the exception that stopped it, if any.
\<close>

subsection \<open>Exceptions\<close>

text \<open>
  Only subclasses of \<^verbatim>\<open>Exception\<close> are modelled (no \<^verbatim>\<open>KeyboardInterrupt\<close>). The string
  is \<^verbatim>\<open>str(e)\<close>.
\<close>

datatype exn_class =
  ImportError | ModuleNotFoundError | FileNotFoundError | FileExistsError
  | NotADirectoryError | UnidentifiedImageError | ValueError | OSError

datatype exn = Exn exn_class string

fun exn_str :: "exn \<Rightarrow> string" where
  "exn_str (Exn c msg) = msg"

fun exn_cls :: "exn \<Rightarrow> exn_class" where
  "exn_cls (Exn c msg) = c"

text \<open>A name between single quotes, as Python prints it in a message.\<close>

definition quoted :: "string \<Rightarrow> string" where
  "quoted p = CHR 0x27 # p @ [CHR 0x27]"

text \<open>\<^verbatim>\<open>isinstance(e, ImportError)\<close>: \<^verbatim>\<open>ModuleNotFoundError\<close> is a subclass of \<^verbatim>\<open>ImportError\<close>.\<close>

definition is_ImportError :: "exn \<Rightarrow> bool" where
  "is_ImportError e \<longleftrightarrow> exn_cls e = ImportError \<or> exn_cls e = ModuleNotFoundError"

subsection \<open>Images\<close>

text \<open>
  A decoded bitmap: its \<^verbatim>\<open>size\<close> (width, height) and its pixel at each coordinate.
  Coordinates and sizes are Python integers.
\<close>

type_synonym pixel = nat

type_synonym box = "int \<times> int \<times> int \<times> int"

record image =
  im_size :: "int \<times> int"
  im_pixel :: "int \<Rightarrow> int \<Rightarrow> pixel"

definition inside :: "int \<times> int \<Rightarrow> int \<Rightarrow> int \<Rightarrow> bool" where
  "inside sz x y \<longleftrightarrow> 0 \<le> x \<and> x < fst sz \<and> 0 \<le> y \<and> y < snd sz"

text \<open>
  The pixels of \<^verbatim>\<open>img.crop((x1, y1, x2, y2))\<close>: the result has size \<open>(x2 - x1, y2 - y1)\<close>,
  its pixel \<open>(i, j)\<close> is the source's pixel \<open>(x1 + i, y1 + j)\<close>, and what lies outside the
  source is filled with zero.
\<close>

definition crop_region :: "image \<Rightarrow> box \<Rightarrow> image" where
  "crop_region img b =
     (case b of (x1, y1, x2, y2) \<Rightarrow>
        \<lparr> im_size = (x2 - x1, y2 - y1),
          im_pixel = (\<lambda>i j.
            if inside (x2 - x1, y2 - y1) i j \<and> inside (im_size img) (x1 + i) (y1 + j)
            then im_pixel img (x1 + i) (y1 + j) else 0) \<rparr>)"

text \<open>\<^verbatim>\<open>Image.crop\<close> refuses a box whose right edge is left of its left edge, or whose
  lower edge is above its upper edge.\<close>

definition crop :: "image \<Rightarrow> box \<Rightarrow> exn + image" where
  "crop img b =
     (case b of (x1, y1, x2, y2) \<Rightarrow>
        if x2 < x1 then Inl (Exn ValueError (''Coordinate 'right' is less than '' @ quoted ''left''))
        else if y2 < y1 then Inl (Exn ValueError (''Coordinate 'lower' is less than '' @ quoted ''upper''))
        else Inr (crop_region img b))"

subsection \<open>The world: file system, console, journal\<close>

datatype file_content = Png image | Junk

datatype fs_event = MadeDirs string | Wrote string

text \<open>
  A path is a string, and two paths are the same file when the strings are equal (no
  links, one working directory). A file holds the image that was saved to it, or bytes
  that are no image (\<open>Junk\<close>): the encoding of an image as PNG is taken to be a function
  of the image. The journal records the directories made and the files saved, in the
  order they happened, each with the set of directories that existed just before it.
\<close>

record world =
  dirs :: "string set"
  files :: "string \<rightharpoonup> file_content"
  stdout :: "string list"
  stderr :: "string list"
  journal :: "(fs_event \<times> string set) list"

text \<open>
  What the file system state does not decide is a parameter of the run: whether Pillow
  can be imported, and which library calls fail for a reason outside the model
  (permissions, a full disk, an encoder that rejects an image). A save that fails
  may fail before or after Pillow has opened its target for writing;
  \<open>save_truncates\<close> tells which.
\<close>

record env =
  pillow_installed :: bool
  makedirs_fault :: "string \<Rightarrow> exn option"
  open_fault :: "string \<Rightarrow> exn option"
  save_fault :: "string \<Rightarrow> image \<Rightarrow> exn option"
  save_truncates :: "string \<Rightarrow> image \<Rightarrow> bool"

definition source_path :: string where
  "source_path = ''/Users/tonyli@sphnet.com.sg/.gemini/antigravity/brain/f71349b7-37e0-4062-a965-0681c9c1ee7e/pixel_art_avatar_set_1769688752696.png''"

definition dest_dir :: string where
  "dest_dir = ''public/avatars''"

subsection \<open>Library calls\<close>

text \<open>\<^verbatim>\<open>os.path.exists\<close>: true of a directory and of a file.\<close>

definition path_exists :: "world \<Rightarrow> string \<Rightarrow> bool" where
  "path_exists w p \<longleftrightarrow> p \<in> dirs w \<or> p \<in> dom (files w)"

text \<open>\<^verbatim>\<open>os.path.join\<close> (POSIX) of two components.\<close>

definition path_join :: "string \<Rightarrow> string \<Rightarrow> string" where
  "path_join a b =
     (if b \<noteq> [] \<and> hd b = CHR ''/'' then b
      else if a = [] \<or> last a = CHR ''/'' then a @ b
      else a @ ''/'' @ b)"

text \<open>\<^verbatim>\<open>os.path.dirname\<close> (POSIX): the directory a path's last component lives in.\<close>

definition dirname :: "string \<Rightarrow> string" where
  "dirname p =
     (let head = rev (dropWhile (\<lambda>c. c \<noteq> CHR ''/'') (rev p))
      in if head \<noteq> [] \<and> list_ex (\<lambda>c. c \<noteq> CHR ''/'') head
         then rev (dropWhile (\<lambda>c. c = CHR ''/'') (rev head))
         else head)"

text \<open>The directories \<^verbatim>\<open>os.makedirs\<close> walks through: every ancestor of the path, then the
  path itself (\<open>pre\<close> is the part of the path already read).\<close>

fun dir_chain :: "string \<Rightarrow> string \<Rightarrow> string list" where
  "dir_chain pre [] = (if pre = [] then [] else [pre])"
| "dir_chain pre (c # cs) =
     (if c = CHR ''/'' \<and> pre \<noteq> [] then pre # dir_chain (pre @ [c]) cs
      else dir_chain (pre @ [c]) cs)"

text \<open>\<^verbatim>\<open>os.makedirs(name)\<close> with \<^verbatim>\<open>exist_ok=False\<close>: fails when the leaf exists, creates the
  leaf and every missing ancestor otherwise.\<close>

definition makedirs :: "env \<Rightarrow> string \<Rightarrow> world \<Rightarrow> exn + world" where
  "makedirs env name w =
     (if path_exists w name
      then Inl (Exn FileExistsError (''[Errno 17] File exists: '' @ quoted name))
      else case makedirs_fault env name of
        Some e \<Rightarrow> Inl e
      | None \<Rightarrow> Inr (w\<lparr> dirs := dirs w \<union> set (dir_chain [] name),
                         journal := journal w @ [(MadeDirs name, dirs w)] \<rparr>))"

text \<open>\<^verbatim>\<open>Image.open(path)\<close>; decoding is taken to happen here.\<close>

definition image_open :: "env \<Rightarrow> string \<Rightarrow> world \<Rightarrow> exn + image" where
  "image_open env p w =
     (case files w p of
        None \<Rightarrow> Inl (Exn FileNotFoundError (''[Errno 2] No such file or directory: '' @ quoted p))
      | Some c \<Rightarrow>
          (case open_fault env p of
             Some e \<Rightarrow> Inl e
           | None \<Rightarrow>
               (case c of
                  Junk \<Rightarrow> Inl (Exn UnidentifiedImageError (''cannot identify image file '' @ quoted p))
                | Png img \<Rightarrow> Inr img)))"

text \<open>
  The exception \<^verbatim>\<open>image.save(path)\<close> raises, if any. The operating system refuses to
  create a file in a directory that does not exist; everything else is the environment's.
  Only the set of directories matters.
\<close>

definition save_error :: "env \<Rightarrow> string set \<Rightarrow> (string \<rightharpoonup> file_content) \<Rightarrow> image \<Rightarrow> string \<Rightarrow> exn option" where
  "save_error env ds fs img p =
     (if dirname p \<in> ds then save_fault env p img
      else if dirname p \<in> dom fs
        then Some (Exn NotADirectoryError (''[Errno 20] Not a directory: '' @ quoted p))
        else Some (Exn FileNotFoundError (''[Errno 2] No such file or directory: '' @ quoted p)))"

text \<open>
  What a save that raises leaves behind. Pillow opens the target for writing
  (\<^verbatim>\<open>w+b\<close>) before it encodes the image: a save that fails after that leaves at the
  target a file that holds no image, whatever was there before; a save that fails
  earlier, or whose directory is missing, leaves the files as they are (so does a
  Pillow that deletes the file it had just created). Which of the two happens is the
  environment's \<open>save_truncates\<close>.
\<close>

definition spoil :: "env \<Rightarrow> image \<Rightarrow> string \<Rightarrow> world \<Rightarrow> world" where
  "spoil env img p w =
     (if dirname p \<in> dirs w \<and> save_truncates env p img
      then w\<lparr> files := (files w)(p \<mapsto> Junk) \<rparr> else w)"

text \<open>
  \<^verbatim>\<open>image.save(path)\<close>: writes the file, replacing what was there. The world is
  returned in both cases: the one the save left, and the exception if it raised.
\<close>

definition save :: "env \<Rightarrow> image \<Rightarrow> string \<Rightarrow> world \<Rightarrow> world \<times> exn option" where
  "save env img p w =
     (case save_error env (dirs w) (files w) img p of
        Some e \<Rightarrow> (spoil env img p w, Some e)
      | None \<Rightarrow> (w\<lparr> files := (files w)(p \<mapsto> Png img),
                     journal := journal w @ [(Wrote p, dirs w)] \<rparr>, None))"

text \<open>\<^verbatim>\<open>print(s)\<close>: one more line on standard output. Writing to the console is taken
  not to fail.\<close>

definition print :: "string \<Rightarrow> world \<Rightarrow> world" where
  "print s w = w\<lparr> stdout := stdout w @ [s] \<rparr>"

subsection \<open>The script\<close>

text \<open>Lines 16 to 23: the split point and the four quadrant descriptors.\<close>

type_synonym avatar = "int \<times> int \<times> int \<times> int \<times> string"

definition avatars :: "int \<Rightarrow> int \<Rightarrow> avatar list" where
  "avatars width height =
     (let w = width div 2; h = height div 2
      in [(0, 0, w, h, ''technical_architect.png''),
          (w, 0, width, h, ''researcher.png''),
          (0, h, w, height, ''cvpr_researcher.png''),
          (w, h, width, height, ''critical_reviewer.png'')])"

text \<open>Lines 25 to 28: the loop. An exception leaves the loop with the world as the
  failing call left it.\<close>

fun save_all :: "env \<Rightarrow> image \<Rightarrow> avatar list \<Rightarrow> world \<Rightarrow> world \<times> exn option" where
  "save_all env img [] w = (w, None)"
| "save_all env img ((x1, y1, x2, y2, name) # rest) w =
     (case crop img (x1, y1, x2, y2) of
        Inl e \<Rightarrow> (w, Some e)
      | Inr c \<Rightarrow>
          (case save env c (path_join dest_dir name) w of
             (w', Some e) \<Rightarrow> (w', Some e)
           | (w', None) \<Rightarrow> save_all env img rest (print (''Saved '' @ name) w')))"

text \<open>Lines 10 and 11: the directory is made only when nothing exists at its path.\<close>

definition ensure_dir :: "env \<Rightarrow> world \<Rightarrow> exn + world" where
  "ensure_dir env w = (if \<not> path_exists w dest_dir then makedirs env dest_dir w else Inr w)"

text \<open>Lines 10 to 28: the body of the \<^verbatim>\<open>try\<close> block.\<close>

definition try_body :: "env \<Rightarrow> world \<Rightarrow> world \<times> exn option" where
  "try_body env w =
     (case ensure_dir env w of
        Inl e \<Rightarrow> (w, Some e)
      | Inr w1 \<Rightarrow>
          (case image_open env source_path w1 of
             Inl e \<Rightarrow> (w1, Some e)
           | Inr img \<Rightarrow>
               (case im_size img of (width, height) \<Rightarrow>
                  save_all env img (avatars width height) w1)))"

text \<open>
  Lines 30 to 35: the line a handler prints for the exception \<open>e\<close>. The handler of
  \<^verbatim>\<open>ImportError\<close> is tried first, the handler of \<^verbatim>\<open>Exception\<close> second; both then
  call \<^verbatim>\<open>sys.exit(1)\<close>.
\<close>

definition handler_line :: "exn \<Rightarrow> string" where
  "handler_line e =
     (if is_ImportError e then ''Pillow not found. Please install with: pip install Pillow''
      else ''Error: '' @ exn_str e)"

text \<open>
  The whole script, returning the final world and the exit code of the process.
  Line 1 imports Pillow before the \<^verbatim>\<open>try\<close> block is entered: an import that fails
  there is not handled by the script, so the interpreter prints the traceback (its last
  line is recorded) on standard error and exits with code 1. A run that leaves the
  \<^verbatim>\<open>try\<close> block without an exception ends with code 0.
\<close>

definition run :: "env \<Rightarrow> world \<Rightarrow> world \<times> nat" where
  "run env w =
     (if \<not> pillow_installed env
      then (w\<lparr> stderr := stderr w @ [''ModuleNotFoundError: No module named '' @ quoted ''PIL''] \<rparr>, 1)
      else case try_body env w of
        (w', None) \<Rightarrow> (w', 0)
      | (w', Some e) \<Rightarrow> (print (handler_line e) w', 1))"

subsection \<open>Vocabulary of the properties\<close>

fun box_of :: "avatar \<Rightarrow> box" where
  "box_of (x1, y1, x2, y2, name) = (x1, y1, x2, y2)"

fun name_of :: "avatar \<Rightarrow> string" where
  "name_of (x1, y1, x2, y2, name) = name"

text \<open>The file a quadrant descriptor is saved to (line 27).\<close>

definition out_path :: "avatar \<Rightarrow> string" where
  "out_path a = path_join dest_dir (name_of a)"

text \<open>The exception one iteration of the loop raises in world \<open>w\<close>, if any.\<close>

definition step_error :: "env \<Rightarrow> world \<Rightarrow> image \<Rightarrow> avatar \<Rightarrow> exn option" where
  "step_error env w img a =
     (case crop img (box_of a) of
        Inl e \<Rightarrow> Some e
      | Inr c \<Rightarrow> save_error env (dirs w) (files w) c (out_path a))"

text \<open>
  The loop seen from outside: the quadrants it saves are those before the first
  iteration that raises; \<open>after_saving\<close> is the world once they are saved,
  \<open>first_error\<close> the exception that ends the loop, if one does, and \<open>wreck\<close> what the
  iteration that raised did to the world \<open>X\<close> it ran in.
\<close>

definition saved :: "env \<Rightarrow> world \<Rightarrow> image \<Rightarrow> avatar list \<Rightarrow> avatar list" where
  "saved env w img avs = takeWhile (\<lambda>a. step_error env w img a = None) avs"

definition first_error :: "env \<Rightarrow> world \<Rightarrow> image \<Rightarrow> avatar list \<Rightarrow> exn option" where
  "first_error env w img avs =
     (case dropWhile (\<lambda>a. step_error env w img a = None) avs of
        [] \<Rightarrow> None
      | a # rest \<Rightarrow> step_error env w img a)"

definition after_saving :: "image \<Rightarrow> avatar list \<Rightarrow> world \<Rightarrow> world" where
  "after_saving img as w =
     w\<lparr> files := foldl (\<lambda>f a. f(out_path a \<mapsto> Png (crop_region img (box_of a)))) (files w) as,
        stdout := stdout w @ map (\<lambda>a. ''Saved '' @ name_of a) as,
        journal := journal w @ map (\<lambda>a. (Wrote (out_path a), dirs w)) as \<rparr>"

text \<open>The world \<open>X\<close> after the iteration for quadrant \<open>a\<close> raised in it: a crop that
  raises changes nothing, a save that raises may spoil its target.\<close>

definition stop_world :: "env \<Rightarrow> image \<Rightarrow> avatar \<Rightarrow> world \<Rightarrow> world" where
  "stop_world env img a X =
     (case crop img (box_of a) of
        Inl e \<Rightarrow> X
      | Inr c \<Rightarrow> spoil env c (out_path a) X)"

text \<open>The same for the first iteration of the loop that raises, if one does.\<close>

definition wreck :: "env \<Rightarrow> world \<Rightarrow> image \<Rightarrow> avatar list \<Rightarrow> world \<Rightarrow> world" where
  "wreck env w img avs X =
     (case dropWhile (\<lambda>a. step_error env w img a = None) avs of
        [] \<Rightarrow> X
      | a # rest \<Rightarrow> stop_world env img a X)"

text \<open>
  A crop box holds the pixels from its left and upper edge up to, and without, its
  right and lower edge.
\<close>

definition in_box :: "box \<Rightarrow> int \<Rightarrow> int \<Rightarrow> bool" where
  "in_box b x y = (case b of (x1, y1, x2, y2) \<Rightarrow> x1 \<le> x \<and> x < x2 \<and> y1 \<le> y \<and> y < y2)"

text \<open>The quadrants whose crop box holds the source pixel \<open>(x, y)\<close>.\<close>

definition owners :: "int \<Rightarrow> int \<Rightarrow> int \<Rightarrow> int \<Rightarrow> avatar list" where
  "owners width height x y = filter (\<lambda>a. in_box (box_of a) x y) (avatars width height)"

text \<open>
  What an image \<open>c\<close>, taken as the crop of quadrant \<open>a\<close>, holds for the source pixel
  \<open>(x, y)\<close>: its pixel at the offset of \<open>(x, y)\<close> from the box's corner, if it has one.
\<close>

definition held :: "image \<Rightarrow> avatar \<Rightarrow> int \<Rightarrow> int \<Rightarrow> pixel option" where
  "held c a x y =
     (case a of (x1, y1, x2, y2, name) \<Rightarrow>
        if inside (im_size c) (x - x1) (y - y1) then Some (im_pixel c (x - x1) (y - y1))
        else None)"

text \<open>The same, read from the output file of quadrant \<open>a\<close> in world \<open>w\<close>.\<close>

definition output_pixel :: "world \<Rightarrow> avatar \<Rightarrow> int \<Rightarrow> int \<Rightarrow> pixel option" where
  "output_pixel w a x y =
     (case files w (out_path a) of
        Some (Png c) \<Rightarrow> held c a x y
      | Some Junk \<Rightarrow> None
      | None \<Rightarrow> None)"

text \<open>The pixel coordinates of a \<open>width\<close> by \<open>height\<close> source, row by row.\<close>

definition pixels :: "int \<Rightarrow> int \<Rightarrow> (int \<times> int) list" where
  "pixels width height = concat (map (\<lambda>y. map (\<lambda>x. (x, y)) [0..width - 1]) [0..height - 1])"

text \<open>The pixels of the source that no crop box holds.\<close>

definition dropped :: "int \<Rightarrow> int \<Rightarrow> (int \<times> int) list" where
  "dropped width height =
     filter (\<lambda>(x, y). owners width height x y = []) (pixels width height)"

text \<open>The pixels of the source \<open>img\<close> that none of the four output files of world \<open>w\<close>
  holds at their place.\<close>

definition missing :: "world \<Rightarrow> image \<Rightarrow> (int \<times> int) list" where
  "missing w img =
     (case im_size img of (width, height) \<Rightarrow>
        filter (\<lambda>(x, y). \<not> list_ex (\<lambda>a. output_pixel w a x y = Some (im_pixel img x y))
                                   (avatars width height))
               (pixels width height))"

text \<open>What a run added to the journal, and the files it wrote, in order.\<close>

definition effects :: "env \<Rightarrow> world \<Rightarrow> (fs_event \<times> string set) list" where
  "effects env w = drop (length (journal w)) (journal (fst (run env w)))"

fun written :: "(fs_event \<times> string set) list \<Rightarrow> string list" where
  "written [] = []"
| "written ((Wrote p, ds) # es) = p # written es"
| "written ((MadeDirs p, ds) # es) = written es"

text \<open>What a run printed on standard output.\<close>

definition printed :: "env \<Rightarrow> world \<Rightarrow> string list" where
  "printed env w = drop (length (stdout w)) (stdout (fst (run env w)))"

subsection \<open>Concrete inputs\<close>

text \<open>An image whose pixels are all different, an environment where nothing fails,
  and a world that holds only the source image.\<close>

definition demo_img :: "int \<Rightarrow> int \<Rightarrow> image" where
  "demo_img width height = \<lparr> im_size = (width, height), im_pixel = (\<lambda>x y. nat (y * width + x)) \<rparr>"

definition no_faults :: env where
  "no_faults = \<lparr> pillow_installed = True, makedirs_fault = (\<lambda>p. None),
                 open_fault = (\<lambda>p. None), save_fault = (\<lambda>p img. None),
                 save_truncates = (\<lambda>p img. False) \<rparr>"

definition demo_world :: "image \<Rightarrow> world" where
  "demo_world img = \<lparr> dirs = {}, files = [source_path \<mapsto> Png img], stdout = [],
                      stderr = [], journal = [] \<rparr>"

text \<open>A world where the destination directory exists and holds an older file under
  one of the four names.\<close>

definition stale_world :: "image \<Rightarrow> world" where
  "stale_world img = \<lparr> dirs = {''public'', ''public/avatars''},
                       files = [source_path \<mapsto> Png img, ''public/avatars/researcher.png'' \<mapsto> Junk],
                       stdout = [], stderr = [], journal = [] \<rparr>"

text \<open>A world where the destination directory holds an older image \<open>old\<close> under one
  of the four names.\<close>

definition older_world :: "image \<Rightarrow> image \<Rightarrow> world" where
  "older_world img old = \<lparr> dirs = {''public'', ''public/avatars''},
                       files = [source_path \<mapsto> Png img, ''public/avatars/researcher.png'' \<mapsto> Png old],
                       stdout = [], stderr = [], journal = [] \<rparr>"

text \<open>A world with no source image, an environment where Pillow is not installed, and
  one where the disk is full when the file \<open>name\<close> is saved, after the file was opened
  for writing.\<close>

definition empty_world :: world where
  "empty_world = \<lparr> dirs = {}, files = Map.empty, stdout = [], stderr = [], journal = [] \<rparr>"

definition without_pillow :: env where
  "without_pillow = no_faults\<lparr> pillow_installed := False \<rparr>"

definition failing_at :: "string \<Rightarrow> env" where
  "failing_at name = no_faults\<lparr> save_fault := (\<lambda>p img.
       if p = path_join dest_dir name
       then Some (Exn OSError ''[Errno 28] No space left on device'') else None),
     save_truncates := (\<lambda>p img. True) \<rparr>"

section \<open>The loop\<close>

text \<open>
  The loop saves the quadrants before the first iteration that raises, in order, and
  stops there. All four files go to the same directory, which the loop does not change,
  so whether an iteration fails does not depend on the earlier ones.
\<close>

lemma save_error_None_dir: "save_error env ds fs c p = None \<Longrightarrow> dirname p \<in> ds"
  by (auto simp: save_error_def split: if_splits)

lemma save_error_files: "dirname p \<in> ds \<Longrightarrow> save_error env ds fs c p = save_fault env p c"
  by (simp add: save_error_def)

lemma spoil_simps:
  "dirs (spoil env c p w) = dirs w" "stdout (spoil env c p w) = stdout w"
  "stderr (spoil env c p w) = stderr w" "journal (spoil env c p w) = journal w"
  by (simp_all add: spoil_def)

lemma stop_world_simps:
  "dirs (stop_world env img a w) = dirs w" "stdout (stop_world env img a w) = stdout w"
  "stderr (stop_world env img a w) = stderr w" "journal (stop_world env img a w) = journal w"
  by (simp_all add: stop_world_def spoil_simps split: sum.splits)

lemma wreck_simps:
  "dirs (wreck env w img avs X) = dirs X" "stdout (wreck env w img avs X) = stdout X"
  "stderr (wreck env w img avs X) = stderr X" "journal (wreck env w img avs X) = journal X"
  by (simp_all add: wreck_def stop_world_simps split: list.splits)

lemma step_error_Some:
  "step_error env w img (x1, y1, x2, y2, name) = Some e \<Longrightarrow>
   save_all env img ((x1, y1, x2, y2, name) # rest) w
     = (stop_world env img (x1, y1, x2, y2, name) w, Some e)"
  by (auto simp: step_error_def stop_world_def save_def out_path_def split: sum.splits option.splits)

lemma step_error_None:
  "step_error env w img (x1, y1, x2, y2, name) = None \<Longrightarrow>
   save_all env img ((x1, y1, x2, y2, name) # rest) w =
     save_all env img rest
       (print (''Saved '' @ name)
         (w\<lparr> files := (files w)(path_join dest_dir name \<mapsto> Png (crop_region img (x1, y1, x2, y2))),
             journal := journal w @ [(Wrote (path_join dest_dir name), dirs w)] \<rparr>))"
  by (auto simp: step_error_def save_def out_path_def crop_def split: sum.splits option.splits if_splits)

lemma step_error_later:
  assumes "step_error env w img a = None" "dirname (out_path a) = dest_dir"
    "dirname (out_path b) = dest_dir" "dirs w' = dirs w"
  shows "step_error env w' img b = step_error env w img b"
proof -
  from assms(1) have "dest_dir \<in> dirs w"
    using assms(2) by (auto simp: step_error_def split: sum.splits dest: save_error_None_dir)
  then show ?thesis
    using assms(3,4) by (simp add: step_error_def save_error_files split: sum.splits)
qed

lemma after_saving_Nil: "after_saving img [] w = w"
  by (simp add: after_saving_def)

lemma after_saving_Cons:
  "after_saving img ((x1, y1, x2, y2, name) # as) w =
     after_saving img as
       (print (''Saved '' @ name)
         (w\<lparr> files := (files w)(path_join dest_dir name \<mapsto> Png (crop_region img (x1, y1, x2, y2))),
             journal := journal w @ [(Wrote (path_join dest_dir name), dirs w)] \<rparr>))"
  by (simp add: after_saving_def print_def out_path_def)

lemma saved_Cons_None:
  "step_error env w img a = None \<Longrightarrow> saved env w img (a # avs) = a # saved env w img avs"
  by (simp add: saved_def)

lemma first_error_Cons_None:
  "step_error env w img a = None \<Longrightarrow> first_error env w img (a # avs) = first_error env w img avs"
  by (simp add: first_error_def)

lemma wreck_Cons_None:
  "step_error env w img a = None \<Longrightarrow> wreck env w img (a # avs) X = wreck env w img avs X"
  by (simp add: wreck_def)

lemma save_all_eq:
  assumes "\<forall>a\<in>set avs. dirname (out_path a) = dest_dir"
  shows "save_all env img avs w =
           (wreck env w img avs (after_saving img (saved env w img avs) w),
            first_error env w img avs)"
  using assms
proof (induction avs arbitrary: w)
  case Nil
  show ?case by (simp add: saved_def first_error_def wreck_def after_saving_Nil)
next
  case (Cons a avs)
  obtain x1 y1 x2 y2 name where a: "a = (x1, y1, x2, y2, name)"
    by (cases a) auto
  show ?case
  proof (cases "step_error env w img a")
    case (Some e)
    then show ?thesis
      using step_error_Some [of env w img x1 y1 x2 y2 name e avs]
      by (simp add: a saved_def first_error_def wreck_def after_saving_Nil)
  next
    case None
    define w' where "w' = print (''Saved '' @ name)
         (w\<lparr> files := (files w)(path_join dest_dir name \<mapsto> Png (crop_region img (x1, y1, x2, y2))),
             journal := journal w @ [(Wrote (path_join dest_dir name), dirs w)] \<rparr>)"
    have dirs: "dirs w' = dirs w" by (simp add: w'_def print_def)
    have same: "step_error env w' img b = step_error env w img b" if "b \<in> set avs" for b
      using step_error_later [OF None _ _ dirs] Cons.prems that by simp
    have sv: "saved env w' img avs = saved env w img avs"
      unfolding saved_def by (rule takeWhile_cong) (simp_all add: same)
    have dw: "dropWhile (\<lambda>a. step_error env w' img a = None) avs
            = dropWhile (\<lambda>a. step_error env w img a = None) avs"
      by (rule dropWhile_cong) (simp_all add: same)
    have fe: "first_error env w' img avs = first_error env w img avs"
    proof (cases "dropWhile (\<lambda>a. step_error env w img a = None) avs")
      case Nil
      show ?thesis unfolding first_error_def dw Nil by simp
    next
      case (Cons b bs)
      then have "b \<in> set (dropWhile (\<lambda>a. step_error env w img a = None) avs)" by simp
      then have "b \<in> set avs" by (rule set_dropWhileD)
      then show ?thesis unfolding first_error_def dw Cons by (simp add: same)
    qed
    have wr: "wreck env w' img avs X = wreck env w img avs X" for X
      unfolding wreck_def dw ..
    have "save_all env img (a # avs) w = save_all env img avs w'"
      using step_error_None [of env w img x1 y1 x2 y2 name avs] None
      by (simp add: a w'_def)
    also have "\<dots> = (wreck env w' img avs (after_saving img (saved env w' img avs) w'),
                       first_error env w' img avs)"
      using Cons.IH [of w'] Cons.prems by simp
    also have "\<dots> = (wreck env w img (a # avs) (after_saving img (saved env w img (a # avs)) w),
                       first_error env w img (a # avs))"
      unfolding sv fe wr saved_Cons_None [OF None] first_error_Cons_None [OF None]
        wreck_Cons_None [OF None]
      by (simp add: a after_saving_Cons w'_def)
    finally show ?thesis .
  qed
qed

lemma saved_all_iff:
  "first_error env w img avs = None \<longleftrightarrow> saved env w img avs = avs"
proof (cases "dropWhile (\<lambda>a. step_error env w img a = None) avs")
  case Nil
  then have "\<forall>a\<in>set avs. step_error env w img a = None"
    by (simp add: dropWhile_eq_Nil_conv)
  then have "saved env w img avs = avs"
    by (simp add: saved_def takeWhile_eq_all_conv)
  then show ?thesis by (simp add: first_error_def Nil)
next
  case (Cons a rest)
  then have ne: "dropWhile (\<lambda>a. step_error env w img a = None) avs \<noteq> []" by simp
  have "step_error env w img a \<noteq> None"
    using hd_dropWhile [OF ne] Cons by simp
  moreover have "saved env w img avs \<noteq> avs"
    using ne by (simp add: saved_def takeWhile_eq_all_conv dropWhile_eq_Nil_conv)
  ultimately show ?thesis by (simp add: first_error_def Cons)
qed

lemma wreck_all: "first_error env w img avs = None \<Longrightarrow> wreck env w img avs X = X"
proof (cases "dropWhile (\<lambda>a. step_error env w img a = None) avs")
  case Nil
  show ?thesis unfolding wreck_def Nil by simp
next
  case (Cons a rest)
  assume none: "first_error env w img avs = None"
  have ne: "dropWhile (\<lambda>a. step_error env w img a = None) avs \<noteq> []" using Cons by simp
  have "step_error env w img a \<noteq> None"
    using hd_dropWhile [OF ne] Cons by simp
  then show ?thesis using none by (simp add: first_error_def Cons)
qed

section \<open>Paths and crop boxes of the four quadrants\<close>

lemma dir_chain_dest: "dir_chain [] dest_dir = [''public'', ''public/avatars'']"
  by (simp add: dest_dir_def)

lemma out_paths:
  "map out_path (avatars width height) =
     [''public/avatars/technical_architect.png'', ''public/avatars/researcher.png'',
      ''public/avatars/cvpr_researcher.png'', ''public/avatars/critical_reviewer.png'']"
  by (simp add: avatars_def Let_def out_path_def path_join_def dest_dir_def)

lemma dirname_outs:
  "map dirname
     [''public/avatars/technical_architect.png'', ''public/avatars/researcher.png'',
      ''public/avatars/cvpr_researcher.png'', ''public/avatars/critical_reviewer.png'']
   = [''public/avatars'', ''public/avatars'', ''public/avatars'', ''public/avatars'']"
  by (simp add: dirname_def)

lemma out_path_dirname:
  assumes "a \<in> set (avatars width height)"
  shows "dirname (out_path a) = dest_dir"
proof -
  have "dirname (out_path a) \<in> set (map dirname (map out_path (avatars width height)))"
    using assms by simp
  then show ?thesis
    unfolding out_paths dirname_outs by (simp add: dest_dir_def)
qed

lemma out_paths_distinct: "distinct (map out_path (avatars width height))"
  unfolding out_paths by simp

lemma source_not_output: "source_path \<notin> set (map out_path (avatars width height))"
  unfolding out_paths by (simp add: source_path_def)

lemma crop_ok:
  assumes "0 \<le> width" "0 \<le> height" "a \<in> set (avatars width height)"
  shows "crop img (box_of a) = Inr (crop_region img (box_of a))"
proof -
  have "0 \<le> width div 2" "width div 2 \<le> width" "0 \<le> height div 2" "height div 2 \<le> height"
    using assms(1,2) by simp_all
  then show ?thesis
    using assms(3) by (auto simp: avatars_def Let_def crop_def)
qed

lemma files_foldl_other:
  "p \<notin> set (map out_path as) \<Longrightarrow>
   foldl (\<lambda>f a. f(out_path a \<mapsto> Png (crop_region img (box_of a)))) f0 as p = f0 p"
  by (induction as arbitrary: f0) auto

lemma files_foldl_hit:
  "distinct (map out_path as) \<Longrightarrow> a \<in> set as \<Longrightarrow>
   foldl (\<lambda>f a. f(out_path a \<mapsto> Png (crop_region img (box_of a)))) f0 as (out_path a)
     = Some (Png (crop_region img (box_of a)))"
proof (induction as arbitrary: f0)
  case Nil
  then show ?case by simp
next
  case (Cons b as)
  show ?case
  proof (cases "a \<in> set as")
    case True
    then show ?thesis using Cons by simp
  next
    case False
    then have ab: "a = b" using Cons.prems by simp
    have "out_path b \<notin> set (map out_path as)" using Cons.prems by simp
    then have "foldl (\<lambda>f a. f(out_path a \<mapsto> Png (crop_region img (box_of a))))
                 (f0(out_path b \<mapsto> Png (crop_region img (box_of b)))) as (out_path b)
               = (f0(out_path b \<mapsto> Png (crop_region img (box_of b)))) (out_path b)"
      by (rule files_foldl_other)
    then show ?thesis unfolding ab foldl.simps by simp
  qed
qed

lemma after_saving_simps:
  "dirs (after_saving img as w) = dirs w"
  "stderr (after_saving img as w) = stderr w"
  "stdout (after_saving img as w) = stdout w @ map (\<lambda>a. ''Saved '' @ name_of a) as"
  "journal (after_saving img as w) = journal w @ map (\<lambda>a. (Wrote (out_path a), dirs w)) as"
  "files (after_saving img as w) =
     foldl (\<lambda>f a. f(out_path a \<mapsto> Png (crop_region img (box_of a)))) (files w) as"
  by (simp_all add: after_saving_def)

section \<open>The stages of a run\<close>

lemma ensure_dir_cases:
  "ensure_dir env w =
     (if path_exists w dest_dir then Inr w
      else case makedirs_fault env dest_dir of
        Some e \<Rightarrow> Inl e
      | None \<Rightarrow> Inr (w\<lparr> dirs := dirs w \<union> {''public'', ''public/avatars''},
                         journal := journal w @ [(MadeDirs dest_dir, dirs w)] \<rparr>))"
  by (simp add: ensure_dir_def makedirs_def dir_chain_dest Un_commute split: option.splits)

lemma ensure_dir_Inr:
  assumes "ensure_dir env w = Inr w1"
  shows "files w1 = files w" "stdout w1 = stdout w" "stderr w1 = stderr w" "dirs w \<subseteq> dirs w1"
    "journal w1 = journal w @ (if path_exists w dest_dir then [] else [(MadeDirs dest_dir, dirs w)])"
    "dirs w1 = (if path_exists w dest_dir then dirs w else dirs w \<union> {''public'', ''public/avatars''})"
proof -
  consider "path_exists w dest_dir" "w1 = w"
    | "\<not> path_exists w dest_dir" "makedirs_fault env dest_dir = None"
      "w1 = w\<lparr> dirs := dirs w \<union> {''public'', ''public/avatars''},
                journal := journal w @ [(MadeDirs dest_dir, dirs w)] \<rparr>"
    using assms unfolding ensure_dir_cases by (cases "path_exists w dest_dir"; cases "makedirs_fault env dest_dir") auto
  note c = this
  show "files w1 = files w" using c by cases simp_all
  show "stdout w1 = stdout w" using c by cases simp_all
  show "stderr w1 = stderr w" using c by cases simp_all
  show "dirs w \<subseteq> dirs w1" using c by cases auto
  show "journal w1 = journal w @ (if path_exists w dest_dir then [] else [(MadeDirs dest_dir, dirs w)])"
    using c by cases simp_all
  show "dirs w1 = (if path_exists w dest_dir then dirs w else dirs w \<union> {''public'', ''public/avatars''})"
    using c by cases simp_all
qed

lemma image_open_files: "files w1 = files w \<Longrightarrow> image_open env p w1 = image_open env p w"
  by (simp add: image_open_def)

lemma try_body_dir_fails: "ensure_dir env w = Inl e \<Longrightarrow> try_body env w = (w, Some e)"
  by (simp add: try_body_def)

lemma try_body_open_fails:
  "ensure_dir env w = Inr w1 \<Longrightarrow> image_open env source_path w = Inl e \<Longrightarrow>
   try_body env w = (w1, Some e)"
  using image_open_files [OF ensure_dir_Inr(1), of env w w1 env source_path]
  by (simp add: try_body_def)

lemma try_body_loop:
  assumes "ensure_dir env w = Inr w1" "image_open env source_path w = Inr img"
    "im_size img = (width, height)"
  shows "try_body env w =
           (wreck env w1 img (avatars width height)
              (after_saving img (saved env w1 img (avatars width height)) w1),
            first_error env w1 img (avatars width height))"
proof -
  have "image_open env source_path w1 = Inr img"
    using assms(2) image_open_files [OF ensure_dir_Inr(1) [OF assms(1)], of env source_path]
    by simp
  then have "try_body env w = save_all env img (avatars width height) w1"
    using assms(1,3) by (simp add: try_body_def)
  moreover have "\<forall>a\<in>set (avatars width height). dirname (out_path a) = dest_dir"
    using out_path_dirname by blast
  ultimately show ?thesis
    using save_all_eq [of "avatars width height" env img w1] by simp
qed

text \<open>The three ways the try block ends.\<close>

lemma try_body_cases:
  obtains (dir_fails) e where "ensure_dir env w = Inl e" "try_body env w = (w, Some e)"
  | (open_fails) w1 e where "ensure_dir env w = Inr w1" "image_open env source_path w = Inl e"
      "try_body env w = (w1, Some e)"
  | (loop) w1 img width height where "ensure_dir env w = Inr w1"
      "image_open env source_path w = Inr img" "im_size img = (width, height)"
      "try_body env w =
           (wreck env w1 img (avatars width height)
              (after_saving img (saved env w1 img (avatars width height)) w1),
            first_error env w1 img (avatars width height))"
proof (cases "ensure_dir env w")
  case (Inl e)
  then show ?thesis using dir_fails try_body_dir_fails by blast
next
  case (Inr w1)
  show ?thesis
  proof (cases "image_open env source_path w")
    case (Inl e)
    then show ?thesis using open_fails Inr try_body_open_fails by blast
  next
    case r: (Inr img)
    obtain width height where "im_size img = (width, height)" by (cases "im_size img") auto
    then show ?thesis using loop Inr r try_body_loop by blast
  qed
qed

lemma run_no_pillow:
  "\<not> pillow_installed env \<Longrightarrow>
   run env w = (w\<lparr> stderr := stderr w @ [''ModuleNotFoundError: No module named '' @ quoted ''PIL''] \<rparr>, 1)"
  by (simp add: run_def)

lemma run_ok:
  "pillow_installed env \<Longrightarrow> try_body env w = (w', None) \<Longrightarrow> run env w = (w', 0)"
  by (simp add: run_def)

lemma run_raised:
  "pillow_installed env \<Longrightarrow> try_body env w = (w', Some e) \<Longrightarrow>
   run env w = (print (handler_line e) w', 1)"
  by (simp add: run_def)

section \<open>The four boxes tile the source\<close>

text \<open>
  The left boxes end where the right boxes begin, and the right boxes end at the width
  of the source (likewise top and bottom): every pixel of the source lies in exactly one
  box, whatever the split point is.
\<close>

lemma owners_inside:
  assumes "inside (width, height) x y"
  shows "owners width height x y =
     (if y < height div 2
      then (if x < width div 2
            then [(0, 0, width div 2, height div 2, ''technical_architect.png'')]
            else [(width div 2, 0, width, height div 2, ''researcher.png'')])
      else (if x < width div 2
            then [(0, height div 2, width div 2, height, ''cvpr_researcher.png'')]
            else [(width div 2, height div 2, width, height, ''critical_reviewer.png'')]))"
  using assms by (simp add: owners_def avatars_def Let_def in_box_def inside_def)

lemma owners_single:
  "inside (width, height) x y \<Longrightarrow> \<exists>a. owners width height x y = [a]"
  by (simp add: owners_inside)

lemma owners_outside:
  assumes "0 \<le> width" "0 \<le> height" "\<not> inside (width, height) x y"
  shows "owners width height x y = []"
proof -
  have "0 \<le> width div 2" "width div 2 \<le> width" "0 \<le> height div 2" "height div 2 \<le> height"
    using assms(1,2) by simp_all
  then show ?thesis
    using assms(3) by (auto simp: owners_def avatars_def Let_def in_box_def inside_def)
qed

lemma owner_in_box:
  "owners width height x y = [a] \<Longrightarrow> a \<in> set (avatars width height) \<and> in_box (box_of a) x y"
proof -
  assume "owners width height x y = [a]"
  then have "a \<in> set (owners width height x y)" by simp
  then show ?thesis by (simp add: owners_def)
qed

lemma crop_pixel:
  assumes "in_box (x1, y1, x2, y2) x y" "inside (im_size img) x y"
  shows "inside (im_size (crop_region img (x1, y1, x2, y2))) (x - x1) (y - y1)"
    and "im_pixel (crop_region img (x1, y1, x2, y2)) (x - x1) (y - y1) = im_pixel img x y"
  using assms by (simp_all add: crop_region_def in_box_def inside_def)

lemma pixels_inside: "(x, y) \<in> set (pixels width height) \<longleftrightarrow> inside (width, height) x y"
  by (fastforce simp: pixels_def inside_def)

lemma dropped_empty: "dropped width height = []"
proof -
  have "owners width height x y \<noteq> []" if "(x, y) \<in> set (pixels width height)" for x y
  proof -
    have "inside (width, height) x y" using that by (simp add: pixels_inside)
    then show ?thesis using owners_single by fastforce
  qed
  then show ?thesis by (auto simp: dropped_def filter_empty_conv)
qed

lemma held_crop:
  assumes "in_box (box_of a) x y" "inside (im_size img) x y"
  shows "held (crop_region img (box_of a)) a x y = Some (im_pixel img x y)"
proof -
  obtain x1 y1 x2 y2 name where a: "a = (x1, y1, x2, y2, name)" by (cases a) auto
  show ?thesis
    using crop_pixel [of x1 y1 x2 y2 x y img] assms by (simp add: a held_def)
qed

lemma crop_sizes:
  "map (\<lambda>a. im_size (crop_region img (box_of a))) (avatars width height) =
     [(width div 2, height div 2), (width - width div 2, height div 2),
      (width div 2, height - height div 2), (width - width div 2, height - height div 2)]"
  by (simp add: avatars_def Let_def crop_region_def)

section \<open>Runs in which no library call fails\<close>

lemma step_error_free:
  assumes "0 \<le> width" "0 \<le> height" "a \<in> set (avatars width height)" "dest_dir \<in> dirs w"
  shows "step_error env w img a = save_fault env (out_path a) (crop_region img (box_of a))"
  using assms
  by (simp add: step_error_def crop_ok [OF assms(1-3)] save_error_files out_path_dirname [OF assms(3)])

lemma saved_all:
  assumes "\<forall>a\<in>set avs. step_error env w img a = None"
  shows "saved env w img avs = avs" "first_error env w img avs = None"
proof -
  show "saved env w img avs = avs"
    using assms by (simp add: saved_def takeWhile_eq_all_conv)
  then show "first_error env w img avs = None"
    by (simp add: saved_all_iff)
qed

lemma ensure_dir_ready:
  assumes "dest_dir \<in> dirs w \<or> (\<not> path_exists w dest_dir \<and> makedirs_fault env dest_dir = None)"
  obtains w1 where "ensure_dir env w = Inr w1" "dest_dir \<in> dirs w1"
proof (cases "dest_dir \<in> dirs w")
  case True
  then have "ensure_dir env w = Inr w" by (simp add: ensure_dir_cases path_exists_def)
  then show ?thesis using that True by blast
next
  case False
  then have "ensure_dir env w = Inr (w\<lparr> dirs := dirs w \<union> {''public'', ''public/avatars''},
                         journal := journal w @ [(MadeDirs dest_dir, dirs w)] \<rparr>)"
    using assms by (simp add: ensure_dir_cases)
  moreover have "dest_dir \<in> dirs (w\<lparr> dirs := dirs w \<union> {''public'', ''public/avatars''},
                         journal := journal w @ [(MadeDirs dest_dir, dirs w)] \<rparr>)"
    by (simp add: dest_dir_def)
  ultimately show ?thesis using that by blast
qed

lemma image_open_ok:
  "files w source_path = Some (Png img) \<Longrightarrow> open_fault env source_path = None \<Longrightarrow>
   image_open env source_path w = Inr img"
  by (simp add: image_open_def)

lemma run_success:
  assumes "pillow_installed env" "open_fault env source_path = None"
    and "\<forall>a\<in>set (avatars width height).
           save_fault env (out_path a) (crop_region img (box_of a)) = None"
    and "files w source_path = Some (Png img)" "im_size img = (width, height)"
    and "0 \<le> width" "0 \<le> height"
    and "dest_dir \<in> dirs w \<or> (\<not> path_exists w dest_dir \<and> makedirs_fault env dest_dir = None)"
  obtains w1 where "ensure_dir env w = Inr w1" "dest_dir \<in> dirs w1"
    "run env w = (after_saving img (avatars width height) w1, 0)"
proof -
  obtain w1 where w1: "ensure_dir env w = Inr w1" "dest_dir \<in> dirs w1"
    using ensure_dir_ready [OF assms(8)] by blast
  have op: "image_open env source_path w = Inr img"
    using assms(2,4) by (simp add: image_open_ok)
  have "\<forall>a\<in>set (avatars width height). step_error env w1 img a = None"
    using assms(3) step_error_free [OF assms(6,7) _ w1(2)] by simp
  note all = saved_all [OF this]
  have "try_body env w = (after_saving img (avatars width height) w1, None)"
    using try_body_loop [OF w1(1) op assms(5)] all by (simp add: wreck_all)
  then have "run env w = (after_saving img (avatars width height) w1, 0)"
    using assms(1) by (simp add: run_ok)
  then show ?thesis using that w1 by blast
qed

text \<open>The files after a run that saved the quadrants \<open>as\<close>.\<close>

lemma files_after_saving:
  assumes "ensure_dir env w = Inr w1"
  shows "files (after_saving img as w1) =
           foldl (\<lambda>f a. f(out_path a \<mapsto> Png (crop_region img (box_of a)))) (files w) as"
  by (simp add: after_saving_simps ensure_dir_Inr(1) [OF assms])

lemma effects_after_saving:
  assumes "ensure_dir env w = Inr w1" "run env w = (after_saving img as w1, c)"
  shows "written (effects env w) = map out_path as"
proof -
  have wr: "written (map (\<lambda>a. (Wrote (out_path a), ds)) as) = map out_path as" for ds
    by (induction as) simp_all
  have "effects env w =
          (if path_exists w dest_dir then [] else [(MadeDirs dest_dir, dirs w)])
          @ map (\<lambda>a. (Wrote (out_path a), dirs w1)) as"
    using assms(2) by (simp add: effects_def after_saving_simps ensure_dir_Inr(5) [OF assms(1)])
  then show ?thesis by (simp add: wr)
qed

lemma output_pixel_after:
  assumes "ensure_dir env w = Inr w1" "a \<in> set (avatars width height)"
    "in_box (box_of a) x y" "inside (im_size img) x y"
  shows "output_pixel (after_saving img (avatars width height) w1) a x y = Some (im_pixel img x y)"
proof -
  have "files (after_saving img (avatars width height) w1) (out_path a)
          = Some (Png (crop_region img (box_of a)))"
    unfolding files_after_saving [OF assms(1)]
    using out_paths_distinct assms(2) by (rule files_foldl_hit)
  then show ?thesis
    using held_crop [OF assms(3,4)] by (simp add: output_pixel_def)
qed

section \<open>The five ways a run ends\<close>

lemma print_simps:
  "dirs (print s w) = dirs w" "files (print s w) = files w" "journal (print s w) = journal w"
  "stderr (print s w) = stderr w" "stdout (print s w) = stdout w @ [s]"
  by (simp_all add: print_def)

lemma saved_short:
  assumes "first_error env w img avs = Some e"
  shows "length (saved env w img avs) < length avs"
proof -
  have "saved env w img avs \<noteq> avs" using assms saved_all_iff [of env w img avs] by auto
  moreover have "saved env w img avs = take (length (saved env w img avs)) avs"
    unfolding saved_def by (rule takeWhile_eq_take)
  moreover have "length (saved env w img avs) \<le> length avs"
    unfolding saved_def by (rule length_takeWhile_le)
  ultimately show ?thesis
    by (metis le_neq_implies_less take_all order_refl)
qed

text \<open>The five ways a run ends.\<close>

lemma run_cases:
  obtains (no_pillow) "\<not> pillow_installed env"
      "run env w = (w\<lparr> stderr := stderr w @ [''ModuleNotFoundError: No module named '' @ quoted ''PIL''] \<rparr>, 1)"
  | (dir_fails) e where "pillow_installed env" "ensure_dir env w = Inl e"
      "run env w = (print (handler_line e) w, 1)"
  | (open_fails) w1 e where "pillow_installed env" "ensure_dir env w = Inr w1"
      "image_open env source_path w = Inl e"
      "run env w = (print (handler_line e) w1, 1)"
  | (all_saved) w1 img width height where "pillow_installed env" "ensure_dir env w = Inr w1"
      "image_open env source_path w = Inr img" "im_size img = (width, height)"
      "first_error env w1 img (avatars width height) = None"
      "run env w = (after_saving img (avatars width height) w1, 0)"
  | (save_fails) w1 img width height e where "pillow_installed env" "ensure_dir env w = Inr w1"
      "image_open env source_path w = Inr img" "im_size img = (width, height)"
      "first_error env w1 img (avatars width height) = Some e"
      "run env w = (print (handler_line e)
                      (wreck env w1 img (avatars width height)
                         (after_saving img (saved env w1 img (avatars width height)) w1)), 1)"
proof (cases "pillow_installed env")
  case False
  then show ?thesis using no_pillow run_no_pillow by blast
next
  case True
  show ?thesis
  proof (cases env w rule: try_body_cases)
    case (dir_fails e)
    then show ?thesis using that(2) True run_raised by blast
  next
    case (open_fails w1 e)
    then show ?thesis using that(3) True run_raised by blast
  next
    case (loop w1 img width height)
    show ?thesis
    proof (cases "first_error env w1 img (avatars width height)")
      case None
      then have "saved env w1 img (avatars width height) = avatars width height"
        by (simp add: saved_all_iff)
      then have "run env w = (after_saving img (avatars width height) w1, 0)"
        using loop(4) None True by (simp add: run_ok wreck_all)
      then show ?thesis using that(4) True loop None by blast
    next
      case (Some e)
      then have "run env w = (print (handler_line e)
                      (wreck env w1 img (avatars width height)
                         (after_saving img (saved env w1 img (avatars width height)) w1)), 1)"
        using loop(4) True by (simp add: run_raised)
      then show ?thesis using that(5) True loop Some by blast
    qed
  qed
qed

section \<open>What a run writes and prints\<close>

lemma names_of_avatars:
  "map name_of (avatars width height) =
     [''technical_architect.png'', ''researcher.png'', ''cvpr_researcher.png'', ''critical_reviewer.png'']"
  by (simp add: avatars_def Let_def)

lemma out_paths_joined:
  "map out_path (avatars width height) =
     [path_join dest_dir ''technical_architect.png'', path_join dest_dir ''researcher.png'',
      path_join dest_dir ''cvpr_researcher.png'', path_join dest_dir ''critical_reviewer.png'']"
  by (simp add: avatars_def Let_def out_path_def)

lemma length_avatars: "length (avatars width height) = 4"
  by (simp add: avatars_def Let_def)

lemma written_wrote: "written (map (\<lambda>a. (Wrote (out_path a), ds)) as) = map out_path as"
  by (induction as) simp_all

lemma effects_untouched:
  "journal (fst (run env w)) = journal w \<Longrightarrow> effects env w = []"
  by (simp add: effects_def)

lemma effects_saved:
  assumes "ensure_dir env w = Inr w1"
    and "journal (fst (run env w)) = journal (after_saving img as w1)"
  shows "effects env w =
          (if path_exists w dest_dir then [] else [(MadeDirs dest_dir, dirs w)])
          @ map (\<lambda>a. (Wrote (out_path a), dirs w1)) as"
  using assms(2) by (simp add: effects_def after_saving_simps ensure_dir_Inr(5) [OF assms(1)])

lemma written_saved:
  assumes "ensure_dir env w = Inr w1"
    and "journal (fst (run env w)) = journal (after_saving img as w1)"
  shows "written (effects env w) = map out_path as"
  unfolding effects_saved [OF assms] by (simp add: written_wrote)

lemma saved_take:
  assumes "first_error env w1 img (avatars width height) = Some e"
  obtains k where "k < 4" "saved env w1 img (avatars width height) = take k (avatars width height)"
proof -
  have "saved env w1 img (avatars width height)
          = take (length (saved env w1 img (avatars width height))) (avatars width height)"
    unfolding saved_def by (rule takeWhile_eq_take)
  moreover have "length (saved env w1 img (avatars width height)) < 4"
    using saved_short [OF assms] by (simp add: length_avatars)
  ultimately show ?thesis using that by blast
qed

lemma written_run:
  obtains (all) "snd (run env w) = 0" "written (effects env w) = map out_path (avatars 0 0)"
  | (part) k where "snd (run env w) = 1" "k < 4"
      "written (effects env w) = take k (map out_path (avatars 0 0))"
proof (cases env w rule: run_cases)
  case no_pillow
  then have "written (effects env w) = take 0 (map out_path (avatars 0 0))"
    by (simp add: effects_untouched)
  moreover have "snd (run env w) = 1" by (simp add: no_pillow)
  ultimately show ?thesis using part [of 0] by simp
next
  case (dir_fails e)
  then have "written (effects env w) = take 0 (map out_path (avatars 0 0))"
    by (simp add: effects_untouched print_simps)
  moreover have "snd (run env w) = 1" by (simp add: dir_fails)
  ultimately show ?thesis using part [of 0] by simp
next
  case (open_fails w1 e)
  have "journal (fst (run env w)) = journal (after_saving img [] w1)" for img
    by (simp add: open_fails(4) print_simps after_saving_Nil)
  from written_saved [OF open_fails(2) this]
  have "written (effects env w) = take 0 (map out_path (avatars 0 0))" by simp
  moreover have "snd (run env w) = 1" by (simp add: open_fails)
  ultimately show ?thesis using part [of 0] by simp
next
  case (all_saved w1 img width height)
  have "written (effects env w) = map out_path (avatars width height)"
    by (rule written_saved [OF all_saved(2)]) (simp add: all_saved(6))
  then have "written (effects env w) = map out_path (avatars 0 0)" by (simp add: out_paths)
  moreover have "snd (run env w) = 0" by (simp add: all_saved)
  ultimately show ?thesis using all by blast
next
  case (save_fails w1 img width height e)
  obtain k where k: "k < 4"
    "saved env w1 img (avatars width height) = take k (avatars width height)"
    using saved_take [OF save_fails(5)] by blast
  have "written (effects env w) = map out_path (take k (avatars width height))"
    by (rule written_saved [OF save_fails(2)])
      (simp add: save_fails(6) print_simps wreck_simps after_saving_simps k(2))
  then have "written (effects env w) = take k (map out_path (avatars width height))"
    by (simp add: take_map)
  then have "written (effects env w) = take k (map out_path (avatars 0 0))"
    unfolding out_paths .
  moreover have "snd (run env w) = 1" by (simp add: save_fails)
  ultimately show ?thesis using part k(1) by blast
qed

lemma try_body_stdout:
  assumes "try_body env w = (w', Some e)"
  obtains k where "k < 4"
    "stdout w' = stdout w @ map (\<lambda>n. ''Saved '' @ n)
       (take k [''technical_architect.png'', ''researcher.png'', ''cvpr_researcher.png'',
                ''critical_reviewer.png''])"
proof (cases env w rule: try_body_cases)
  case (dir_fails e')
  then have "stdout w' = stdout w @ map (\<lambda>n. ''Saved '' @ n)
       (take 0 [''technical_architect.png'', ''researcher.png'', ''cvpr_researcher.png'',
                ''critical_reviewer.png''])"
    using assms by simp
  then show ?thesis by (rule that [of 0, rotated]) simp
next
  case (open_fails w1 e')
  then have "stdout w' = stdout w @ map (\<lambda>n. ''Saved '' @ n)
       (take 0 [''technical_architect.png'', ''researcher.png'', ''cvpr_researcher.png'',
                ''critical_reviewer.png''])"
    using assms ensure_dir_Inr(2) [OF open_fails(1)] by simp
  then show ?thesis by (rule that [of 0, rotated]) simp
next
  case (loop w1 img width height)
  then have fe: "first_error env w1 img (avatars width height) = Some e"
    and w': "w' = wreck env w1 img (avatars width height)
                    (after_saving img (saved env w1 img (avatars width height)) w1)"
    using assms by simp_all
  obtain k where k: "k < 4"
    "saved env w1 img (avatars width height) = take k (avatars width height)"
    using saved_take [OF fe] by blast
  have "map (\<lambda>a. ''Saved '' @ name_of a) (take k (avatars width height))
      = map (\<lambda>n. ''Saved '' @ n) (take k (map name_of (avatars width height)))"
    by (simp add: take_map o_def)
  then have "stdout w' = stdout w @ map (\<lambda>n. ''Saved '' @ n)
       (take k [''technical_architect.png'', ''researcher.png'', ''cvpr_researcher.png'',
                ''critical_reviewer.png''])"
    unfolding w' k(2) names_of_avatars
    by (simp add: wreck_simps after_saving_simps ensure_dir_Inr(2) [OF loop(1)])
  then show ?thesis using that k(1) by blast
qed

lemma image_open_missing:
  "\<not> path_exists w source_path \<Longrightarrow>
   image_open env source_path w
     = Inl (Exn FileNotFoundError (''[Errno 2] No such file or directory: '' @ quoted source_path))"
  by (auto simp: image_open_def path_exists_def split: option.splits)

lemma saved_needs_dir:
  assumes "a \<in> set (saved env w1 img (avatars width height))"
  shows "dest_dir \<in> dirs w1"
proof -
  have a: "a \<in> set (avatars width height)" "step_error env w1 img a = None"
    using assms unfolding saved_def by (auto dest: set_takeWhileD)
  then have "dirname (out_path a) \<in> dirs w1"
    by (auto simp: step_error_def split: sum.splits dest: save_error_None_dir)
  then show ?thesis using out_path_dirname [OF a(1)] by simp
qed

text \<open>What a run does to the file system: nothing, or the directory step followed by
  the saving of some of the quadrants, all in a world where the directory exists.\<close>

lemma effects_run:
  obtains (untouched) "\<not> pillow_installed env \<or> (\<exists>e. ensure_dir env w = Inl e)"
      "effects env w = []" "dirs (fst (run env w)) = dirs w" "files (fst (run env w)) = files w"
  | (touched) w1 as where "pillow_installed env" "ensure_dir env w = Inr w1"
      "effects env w =
         (if path_exists w dest_dir then [] else [(MadeDirs dest_dir, dirs w)])
         @ map (\<lambda>a. (Wrote (out_path a), dirs w1)) as"
      "as \<noteq> [] \<longrightarrow> dest_dir \<in> dirs w1"
      "dirs (fst (run env w)) = dirs w1"
proof (cases env w rule: run_cases)
  case no_pillow
  then show ?thesis using untouched by (simp add: effects_untouched)
next
  case (dir_fails e)
  then show ?thesis using untouched by (simp add: effects_untouched print_simps)
next
  case (open_fails w1 e)
  have "journal (fst (run env w)) = journal (after_saving img [] w1)" for img
    by (simp add: open_fails(4) print_simps after_saving_Nil)
  from effects_saved [OF open_fails(2) this]
  have "effects env w =
         (if path_exists w dest_dir then [] else [(MadeDirs dest_dir, dirs w)])
         @ map (\<lambda>a. (Wrote (out_path a), dirs w1)) []" .
  moreover have "dirs (fst (run env w)) = dirs w1"
    by (simp add: open_fails(4) print_simps)
  ultimately show ?thesis using touched [of w1 "[]"] open_fails(1,2) by blast
next
  case (all_saved w1 img width height)
  have sv: "saved env w1 img (avatars width height) = avatars width height"
    using all_saved(5) by (simp add: saved_all_iff)
  have "journal (fst (run env w)) = journal (after_saving img (avatars width height) w1)"
    by (simp add: all_saved(6))
  note eff = effects_saved [OF all_saved(2) this]
  have "avatars width height \<noteq> [] \<longrightarrow> dest_dir \<in> dirs w1"
    using saved_needs_dir [of "hd (avatars width height)" env w1 img width height]
    unfolding sv by auto
  moreover have "dirs (fst (run env w)) = dirs w1"
    by (simp add: all_saved(6) after_saving_simps)
  ultimately show ?thesis using touched [of w1 "avatars width height"] all_saved(1,2) eff by blast
next
  case (save_fails w1 img width height e)
  have "journal (fst (run env w))
      = journal (after_saving img (saved env w1 img (avatars width height)) w1)"
    by (simp add: save_fails(6) print_simps wreck_simps)
  note eff = effects_saved [OF save_fails(2) this]
  have "saved env w1 img (avatars width height) \<noteq> [] \<longrightarrow> dest_dir \<in> dirs w1"
    using saved_needs_dir [of "hd (saved env w1 img (avatars width height))" env w1 img width height]
    by auto
  moreover have "dirs (fst (run env w)) = dirs w1"
    by (simp add: save_fails(6) print_simps wreck_simps after_saving_simps)
  ultimately show ?thesis
    using touched [of w1 "saved env w1 img (avatars width height)"] save_fails(1,2) eff by blast
qed

section \<open>Running again\<close>

lemma image_open_Inr: "image_open env p w = Inr img \<Longrightarrow> files w p = Some (Png img)"
  by (auto simp: image_open_def split: option.splits file_content.splits)

lemma files_foldl_same:
  "\<forall>a\<in>set as. f (out_path a) = Some (Png (crop_region img (box_of a))) \<Longrightarrow>
   foldl (\<lambda>f a. f(out_path a \<mapsto> Png (crop_region img (box_of a)))) f as = f"
proof (induction as)
  case Nil
  show ?case by simp
next
  case (Cons a as)
  have "f (out_path a) = Some (Png (crop_region img (box_of a)))"
    using Cons.prems by simp
  then have u: "f(out_path a \<mapsto> Png (crop_region img (box_of a))) = f"
    by (rule map_upd_triv)
  have "\<forall>a\<in>set as. f (out_path a) = Some (Png (crop_region img (box_of a)))"
    using Cons.prems by simp
  then have "foldl (\<lambda>f a. f(out_path a \<mapsto> Png (crop_region img (box_of a)))) f as = f"
    by (rule Cons.IH)
  then show ?case unfolding foldl_Cons u .
qed

text \<open>A run that exits with code 0 saved all four quadrants of the image it opened.\<close>

lemma run_zero:
  assumes "snd (run env w) = 0"
  obtains w1 img width height where "ensure_dir env w = Inr w1"
    "files w source_path = Some (Png img)" "im_size img = (width, height)"
    "run env w = (after_saving img (avatars width height) w1, 0)" "dest_dir \<in> dirs w1"
proof (cases env w rule: run_cases)
  case (all_saved w1 img width height)
  have "saved env w1 img (avatars width height) = avatars width height"
    using all_saved(5) by (simp add: saved_all_iff)
  then have "dest_dir \<in> dirs w1"
    using saved_needs_dir [of "hd (avatars width height)" env w1 img width height]
    by (simp add: avatars_def Let_def)
  then show ?thesis
    using that all_saved(2,4,6) image_open_Inr [OF all_saved(3)] by blast
qed (use assms in simp_all)

text \<open>Saving some of the quadrants of the same image again leaves the files as they are.\<close>

lemma resave_same_files:
  assumes "set as \<subseteq> set (avatars width height)"
  shows "foldl (\<lambda>f a. f(out_path a \<mapsto> Png (crop_region img (box_of a))))
           (foldl (\<lambda>f a. f(out_path a \<mapsto> Png (crop_region img (box_of a)))) f0 (avatars width height))
           as
         = foldl (\<lambda>f a. f(out_path a \<mapsto> Png (crop_region img (box_of a)))) f0 (avatars width height)"
proof (rule files_foldl_same, rule ballI)
  fix a assume "a \<in> set as"
  then have "a \<in> set (avatars width height)" using assms by blast
  with out_paths_distinct
  show "foldl (\<lambda>f a. f(out_path a \<mapsto> Png (crop_region img (box_of a)))) f0 (avatars width height) (out_path a)
      = Some (Png (crop_region img (box_of a)))"
    by (rule files_foldl_hit)
qed

section \<open>A save that fails\<close>

lemma snd_save: "snd (save env c p w) = save_error env (dirs w) (files w) c p"
  by (simp add: save_def split: option.splits)

text \<open>Whether a save into the destination directory fails does not depend on the
  files saved there before it.\<close>

lemma save_error_after:
  assumes "a \<in> set (avatars width height)" "as = [] \<or> dest_dir \<in> dirs w1"
  shows "save_error env (dirs (after_saving img as w1)) (files (after_saving img as w1)) c (out_path a)
       = save_error env (dirs w1) (files w1) c (out_path a)"
proof (cases "as = []")
  case True
  then show ?thesis by (simp add: after_saving_Nil)
next
  case False
  then have "dirname (out_path a) \<in> dirs w1"
    using assms(2) out_path_dirname [OF assms(1)] by simp
  then show ?thesis by (simp add: after_saving_simps save_error_files)
qed

lemma stops_at:
  assumes "n < length avs" "\<forall>j<n. step_error env w img (avs ! j) = None"
    "step_error env w img (avs ! n) = Some e"
  shows "saved env w img avs = take n avs" "first_error env w img avs = Some e"
    "wreck env w img avs X = stop_world env img (avs ! n) X"
proof -
  have tw: "takeWhile (\<lambda>a. step_error env w img a = None) avs = take n avs"
    using assms by (intro takeWhile_eq_take_P_nth) simp_all
  then show "saved env w img avs = take n avs" by (simp add: saved_def)
  have "dropWhile (\<lambda>a. step_error env w img a = None) avs
      = drop (length (takeWhile (\<lambda>a. step_error env w img a = None) avs)) avs"
    by (rule dropWhile_eq_drop)
  also have "\<dots> = drop n avs" using assms(1) by (simp add: tw)
  also have "\<dots> = avs ! n # drop (Suc n) avs" using assms(1) by (simp add: Cons_nth_drop_Suc)
  finally have dw: "dropWhile (\<lambda>a. step_error env w img a = None) avs
      = avs ! n # drop (Suc n) avs" .
  show "first_error env w img avs = Some e"
    using assms(3) by (simp add: first_error_def dw)
  show "wreck env w img avs X = stop_world env img (avs ! n) X"
    by (simp add: wreck_def dw)
qed

lemma run_stops_at:
  assumes "pillow_installed env" "ensure_dir env w = Inr w1"
    "image_open env source_path w = Inr img" "im_size img = (width, height)"
    "n < 4" "\<forall>j<n. step_error env w1 img (avatars width height ! j) = None"
    "step_error env w1 img (avatars width height ! n) = Some e"
  shows "run env w = (print (handler_line e)
           (stop_world env img (avatars width height ! n)
              (after_saving img (take n (avatars width height)) w1)), 1)"
proof -
  have "n < length (avatars width height)" using assms(5) by (simp add: length_avatars)
  note st = stops_at [OF this assms(6,7)]
  have "try_body env w = (stop_world env img (avatars width height ! n)
              (after_saving img (take n (avatars width height)) w1), Some e)"
    using try_body_loop [OF assms(2,3,4)] st by simp
  then show ?thesis using assms(1) by (rule run_raised [rotated])
qed

text \<open>The iteration that raised changes at most the file it was saving, and leaves
  there what was there before or a file that holds no image.\<close>

lemma files_stop_world:
  "p \<noteq> out_path a \<Longrightarrow> files (stop_world env img a X) p = files X p"
  "files (stop_world env img a X) (out_path a) = files X (out_path a)
   \<or> files (stop_world env img a X) (out_path a) = Some Junk"
  by (simp_all add: stop_world_def spoil_def split: sum.splits)

lemma nth_not_in_take:
  assumes "distinct xs" "n < length xs"
  shows "xs ! n \<notin> set (take n xs)"
proof
  assume "xs ! n \<in> set (take n xs)"
  then obtain i where i: "i < length (take n xs)" "take n xs ! i = xs ! n"
    by (auto simp: in_set_conv_nth)
  then have "i < n" "xs ! i = xs ! n" by simp_all
  then show False using assms nth_eq_iff_index_eq [OF assms(1), of i n] by simp
qed

lemma run_open_fails:
  assumes "pillow_installed env" "ensure_dir env w = Inr w1"
    "image_open env source_path w = Inl e"
  shows "run env w = (print (handler_line e) w1, 1)"
  using try_body_open_fails [OF assms(2,3)] assms(1) by (rule run_raised [rotated])

lemma saved_lines_count:
  "length (filter (\<lambda>l. take 6 l = ''Saved '')
     (map (\<lambda>a. ''Saved '' @ name_of a) as @ [handler_line e])) = length as"
proof -
  have "filter (\<lambda>l. take 6 l = ''Saved '') (map (\<lambda>a. ''Saved '' @ name_of a) as)
      = map (\<lambda>a. ''Saved '' @ name_of a) as"
    by (induction as) simp_all
  moreover have "take 6 (handler_line e) \<noteq> ''Saved ''"
    by (simp add: handler_line_def)
  ultimately show ?thesis by simp
qed

section \<open>The properties of the specification\<close>

subsection \<open>C1\<close>

text \<open>
  C1. For a source image of even width W and even height H, the run produces four
  output images, each of size exactly (W/2, H/2); the four crop boxes tile the rectangle
  (0,0)-(W,H) exactly and without overlap (every pixel of the source lies in exactly one
  box, and no box reaches outside the source); and the output files hold every pixel of
  the source at its place. The run meant is one where no library call fails.
\<close>

theorem C1_even_source_four_equal_tiles:
  assumes "pillow_installed env" "open_fault env source_path = None"
    and "\<forall>a\<in>set (avatars width height).
           save_fault env (out_path a) (crop_region img (box_of a)) = None"
    and "files w source_path = Some (Png img)" "im_size img = (width, height)"
    and "0 \<le> width" "0 \<le> height"
    and "dest_dir \<in> dirs w \<or> (\<not> path_exists w dest_dir \<and> makedirs_fault env dest_dir = None)"
    and "even width" "even height"
  shows "snd (run env w) = 0
    \<and> written (effects env w) = map out_path (avatars width height)
    \<and> length (avatars width height) = 4
    \<and> distinct (map out_path (avatars width height))
    \<and> (\<forall>a\<in>set (avatars width height).
          \<exists>c. files (fst (run env w)) (out_path a) = Some (Png c)
             \<and> im_size c = (width div 2, height div 2))
    \<and> (\<forall>x y. inside (width, height) x y \<longrightarrow>
          (\<exists>a. owners width height x y = [a]
             \<and> output_pixel (fst (run env w)) a x y = Some (im_pixel img x y)))
    \<and> (\<forall>x y. \<not> inside (width, height) x y \<longrightarrow> owners width height x y = [])"
proof -
  obtain w1 where w1: "ensure_dir env w = Inr w1"
    and run: "run env w = (after_saving img (avatars width height) w1, 0)"
    using run_success [OF assms(1-8)] by blast
  have half: "width - width div 2 = width div 2" "height - height div 2 = height div 2"
    using assms(9,10) by presburger+
  have sizes: "\<exists>c. files (fst (run env w)) (out_path a) = Some (Png c)
             \<and> im_size c = (width div 2, height div 2)"
    if a: "a \<in> set (avatars width height)" for a
  proof -
    have "files (fst (run env w)) (out_path a) = Some (Png (crop_region img (box_of a)))"
      unfolding run fst_conv files_after_saving [OF w1]
      using out_paths_distinct a by (rule files_foldl_hit)
    moreover have "im_size (crop_region img (box_of a)) \<in>
        set (map (\<lambda>a. im_size (crop_region img (box_of a))) (avatars width height))"
      using a by simp
    then have "im_size (crop_region img (box_of a)) = (width div 2, height div 2)"
      unfolding crop_sizes half by simp
    ultimately show ?thesis by blast
  qed
  have pix: "\<exists>a. owners width height x y = [a]
             \<and> output_pixel (fst (run env w)) a x y = Some (im_pixel img x y)"
    if ins: "inside (width, height) x y" for x y
  proof -
    obtain a where a: "owners width height x y = [a]"
      using owners_single [OF ins] by blast
    have "output_pixel (fst (run env w)) a x y = Some (im_pixel img x y)"
      unfolding run fst_conv
      using owner_in_box [OF a] ins assms(5) output_pixel_after [OF w1] by simp
    then show ?thesis using a by blast
  qed
  have "snd (run env w) = 0" by (simp add: run)
  moreover have "written (effects env w) = map out_path (avatars width height)"
    using effects_after_saving [OF w1 run] .
  moreover have "length (avatars width height) = 4" by (simp add: avatars_def Let_def)
  moreover note out_paths_distinct [of width height]
  moreover have "\<forall>x y. \<not> inside (width, height) x y \<longrightarrow> owners width height x y = []"
    using owners_outside [OF assms(6,7)] by blast
  ultimately show ?thesis using sizes pix by blast
qed

theorem C1_even_source_four_equal_tiles_witness:
  "pillow_installed no_faults
   \<and> files (demo_world (demo_img 4 2)) source_path = Some (Png (demo_img 4 2))
   \<and> even (4::int) \<and> even (2::int)
   \<and> snd (run no_faults (demo_world (demo_img 4 2))) = 0
   \<and> written (effects no_faults (demo_world (demo_img 4 2)))
       = [''public/avatars/technical_architect.png'', ''public/avatars/researcher.png'',
          ''public/avatars/cvpr_researcher.png'', ''public/avatars/critical_reviewer.png'']
   \<and> (\<exists>c. files (fst (run no_faults (demo_world (demo_img 4 2)))) ''public/avatars/researcher.png''
            = Some (Png c) \<and> im_size c = (2, 1))
   \<and> output_pixel (fst (run no_faults (demo_world (demo_img 4 2))))
         (2, 1, 4, 2, ''critical_reviewer.png'') 3 1 = Some 7"
proof -
  have h1: "pillow_installed no_faults" "open_fault no_faults source_path = None"
    by (simp_all add: no_faults_def)
  have h3: "\<forall>a\<in>set (avatars 4 2).
      save_fault no_faults (out_path a) (crop_region (demo_img 4 2) (box_of a)) = None"
    by (simp add: no_faults_def)
  have h4: "files (demo_world (demo_img 4 2)) source_path = Some (Png (demo_img 4 2))"
    by (simp add: demo_world_def)
  have h5: "im_size (demo_img 4 2) = (4, 2)" by (simp add: demo_img_def)
  have h6: "(0::int) \<le> 4" "(0::int) \<le> 2" by simp_all
  have h8: "dest_dir \<in> dirs (demo_world (demo_img 4 2))
      \<or> (\<not> path_exists (demo_world (demo_img 4 2)) dest_dir \<and> makedirs_fault no_faults dest_dir = None)"
    by (simp add: demo_world_def path_exists_def no_faults_def dest_dir_def source_path_def)
  have h9: "even (4::int)" "even (2::int)" by simp_all
  note th = C1_even_source_four_equal_tiles [OF h1 h3 h4 h5 h6 h8 h9]
  have a: "(2, 0, 4, 1, ''researcher.png'') \<in> set (avatars 4 2)"
    by (simp add: avatars_def)
  have p: "out_path (2, 0, 4, 1, ''researcher.png'') = ''public/avatars/researcher.png''"
    by (simp add: out_path_def path_join_def dest_dir_def)
  have "\<exists>c. files (fst (run no_faults (demo_world (demo_img 4 2)))) ''public/avatars/researcher.png''
            = Some (Png c) \<and> im_size c = (2, 1)"
    using th a unfolding p [symmetric] by fastforce
  moreover have ins: "inside (4, 2) 3 1" by (simp add: inside_def)
  have own: "owners 4 2 3 1 = [(2, 1, 4, 2, ''critical_reviewer.png'')]"
    by (simp add: owners_inside ins)
  from th ins have "\<exists>a. owners 4 2 3 1 = [a]
      \<and> output_pixel (fst (run no_faults (demo_world (demo_img 4 2)))) a 3 1
          = Some (im_pixel (demo_img 4 2) 3 1)"
    by blast
  then have "output_pixel (fst (run no_faults (demo_world (demo_img 4 2))))
         (2, 1, 4, 2, ''critical_reviewer.png'') 3 1 = Some 7"
    unfolding own by (simp add: demo_img_def)
  moreover have "written (effects no_faults (demo_world (demo_img 4 2)))
       = [''public/avatars/technical_architect.png'', ''public/avatars/researcher.png'',
          ''public/avatars/cvpr_researcher.png'', ''public/avatars/critical_reviewer.png'']"
    using th unfolding out_paths by blast
  moreover have "snd (run no_faults (demo_world (demo_img 4 2))) = 0" using th by blast
  ultimately show ?thesis using h1 h4 h9 by blast
qed

subsection \<open>C2\<close>

text \<open>
  C2. For a source image of width \<open>width\<close> and height \<open>height\<close> the program computes
  w = width // 2 and h = height // 2 by floor division and crops exactly the four
  rectangles (0,0,w,h), (w,0,width,h), (0,h,w,height), (w,h,width,height), writing them
  into the destination directory as technical_architect.png, researcher.png,
  cvpr_researcher.png and critical_reviewer.png in this order, whatever file of the same
  name was there before. The run meant is one where no library call fails.
\<close>

theorem C2_four_fixed_boxes_and_names:
  assumes "pillow_installed env" "open_fault env source_path = None"
    and "\<forall>a\<in>set (avatars width height).
           save_fault env (out_path a) (crop_region img (box_of a)) = None"
    and "files w source_path = Some (Png img)" "im_size img = (width, height)"
    and "0 \<le> width" "0 \<le> height"
    and "dest_dir \<in> dirs w \<or> (\<not> path_exists w dest_dir \<and> makedirs_fault env dest_dir = None)"
  shows "avatars width height =
       [(0, 0, width div 2, height div 2, ''technical_architect.png''),
        (width div 2, 0, width, height div 2, ''researcher.png''),
        (0, height div 2, width div 2, height, ''cvpr_researcher.png''),
        (width div 2, height div 2, width, height, ''critical_reviewer.png'')]
    \<and> 2 * (width div 2) \<le> width \<and> width < 2 * (width div 2) + 2
    \<and> 2 * (height div 2) \<le> height \<and> height < 2 * (height div 2) + 2
    \<and> snd (run env w) = 0
    \<and> written (effects env w) =
       [path_join dest_dir ''technical_architect.png'', path_join dest_dir ''researcher.png'',
        path_join dest_dir ''cvpr_researcher.png'', path_join dest_dir ''critical_reviewer.png'']
    \<and> files (fst (run env w)) = (files w)
       (path_join dest_dir ''technical_architect.png''
          \<mapsto> Png (crop_region img (0, 0, width div 2, height div 2)),
        path_join dest_dir ''researcher.png''
          \<mapsto> Png (crop_region img (width div 2, 0, width, height div 2)),
        path_join dest_dir ''cvpr_researcher.png''
          \<mapsto> Png (crop_region img (0, height div 2, width div 2, height)),
        path_join dest_dir ''critical_reviewer.png''
          \<mapsto> Png (crop_region img (width div 2, height div 2, width, height)))"
proof -
  obtain w1 where w1: "ensure_dir env w = Inr w1"
    and run: "run env w = (after_saving img (avatars width height) w1, 0)"
    using run_success [OF assms] by blast
  have av: "avatars width height =
       [(0, 0, width div 2, height div 2, ''technical_architect.png''),
        (width div 2, 0, width, height div 2, ''researcher.png''),
        (0, height div 2, width div 2, height, ''cvpr_researcher.png''),
        (width div 2, height div 2, width, height, ''critical_reviewer.png'')]"
    by (simp add: avatars_def Let_def)
  have fl: "2 * (width div 2) \<le> width \<and> width < 2 * (width div 2) + 2
    \<and> 2 * (height div 2) \<le> height \<and> height < 2 * (height div 2) + 2"
    by presburger
  have "written (effects env w) = map out_path (avatars width height)"
    using effects_after_saving [OF w1 run] .
  then have wr: "written (effects env w) =
       [path_join dest_dir ''technical_architect.png'', path_join dest_dir ''researcher.png'',
        path_join dest_dir ''cvpr_researcher.png'', path_join dest_dir ''critical_reviewer.png'']"
    unfolding av by (simp add: out_path_def)
  have "files (fst (run env w)) =
      foldl (\<lambda>f a. f(out_path a \<mapsto> Png (crop_region img (box_of a)))) (files w) (avatars width height)"
    unfolding run fst_conv by (rule files_after_saving [OF w1])
  then have fs: "files (fst (run env w)) = (files w)
       (path_join dest_dir ''technical_architect.png''
          \<mapsto> Png (crop_region img (0, 0, width div 2, height div 2)),
        path_join dest_dir ''researcher.png''
          \<mapsto> Png (crop_region img (width div 2, 0, width, height div 2)),
        path_join dest_dir ''cvpr_researcher.png''
          \<mapsto> Png (crop_region img (0, height div 2, width div 2, height)),
        path_join dest_dir ''critical_reviewer.png''
          \<mapsto> Png (crop_region img (width div 2, height div 2, width, height)))"
    unfolding av by (simp add: out_path_def)
  have "snd (run env w) = 0" by (simp add: run)
  then show ?thesis using av fl wr fs by blast
qed

theorem C2_four_fixed_boxes_and_names_witness:
  "pillow_installed no_faults
   \<and> files (stale_world (demo_img 5 3)) source_path = Some (Png (demo_img 5 3))
   \<and> files (stale_world (demo_img 5 3)) ''public/avatars/researcher.png'' = Some Junk
   \<and> dest_dir \<in> dirs (stale_world (demo_img 5 3))
   \<and> avatars 5 3 = [(0, 0, 2, 1, ''technical_architect.png''), (2, 0, 5, 1, ''researcher.png''),
                      (0, 1, 2, 3, ''cvpr_researcher.png''), (2, 1, 5, 3, ''critical_reviewer.png'')]
   \<and> snd (run no_faults (stale_world (demo_img 5 3))) = 0
   \<and> files (fst (run no_faults (stale_world (demo_img 5 3)))) ''public/avatars/researcher.png''
       = Some (Png (crop_region (demo_img 5 3) (2, 0, 5, 1)))"
proof -
  have h1: "pillow_installed no_faults" "open_fault no_faults source_path = None"
    by (simp_all add: no_faults_def)
  have h3: "\<forall>a\<in>set (avatars 5 3).
      save_fault no_faults (out_path a) (crop_region (demo_img 5 3) (box_of a)) = None"
    by (simp add: no_faults_def)
  have h4: "files (stale_world (demo_img 5 3)) source_path = Some (Png (demo_img 5 3))"
    by (simp add: stale_world_def source_path_def)
  have old: "files (stale_world (demo_img 5 3)) ''public/avatars/researcher.png'' = Some Junk"
    by (simp add: stale_world_def)
  have h5: "im_size (demo_img 5 3) = (5, 3)" by (simp add: demo_img_def)
  have h6: "(0::int) \<le> 5" "(0::int) \<le> 3" by simp_all
  have d: "dest_dir \<in> dirs (stale_world (demo_img 5 3))"
    by (simp add: stale_world_def dest_dir_def)
  then have h8: "dest_dir \<in> dirs (stale_world (demo_img 5 3))
      \<or> (\<not> path_exists (stale_world (demo_img 5 3)) dest_dir \<and> makedirs_fault no_faults dest_dir = None)"
    by simp
  note th = C2_four_fixed_boxes_and_names [OF h1 h3 h4 h5 h6 h8]
  have av: "avatars 5 3 = [(0, 0, 2, 1, ''technical_architect.png''), (2, 0, 5, 1, ''researcher.png''),
                      (0, 1, 2, 3, ''cvpr_researcher.png''), (2, 1, 5, 3, ''critical_reviewer.png'')]"
    using th by simp
  have "files (fst (run no_faults (stale_world (demo_img 5 3)))) ''public/avatars/researcher.png''
       = Some (Png (crop_region (demo_img 5 3) (2, 0, 5, 1)))"
    using th by (simp add: path_join_def dest_dir_def)
  moreover have "snd (run no_faults (stale_world (demo_img 5 3))) = 0" using th by blast
  ultimately show ?thesis using h1 h4 old d av by blast
qed

subsection \<open>C3\<close>

text \<open>
  C3 (as the specification states it: with an odd width or height a row or column of
  the source is dropped and appears in no output) fails on the code. On a 3 by 3 source
  no pixel is outside the four boxes, the run's four output files hold every pixel of
  the source, and the crops measure 1x1, 2x1, 1x2 and 2x2.
\<close>

theorem C3_counterexample:
  "odd (3::int)
   \<and> dropped 3 3 = []
   \<and> missing (fst (run no_faults (demo_world (demo_img 3 3)))) (demo_img 3 3) = []
   \<and> map (\<lambda>a. im_size (crop_region (demo_img 3 3) (box_of a))) (avatars 3 3)
       = [(1, 1), (2, 1), (1, 2), (2, 2)]"
  by code_simp

text \<open>
  C3, amended. For a source with an odd width or an odd height the four boxes still
  tile the source: no pixel is dropped, every pixel lies in exactly one box and the crop
  of that box holds it. What the odd dimension changes is the sizes: the right crops are
  one pixel wider than the left ones when the width is odd, and the lower crops one
  pixel taller than the upper ones when the height is odd.
\<close>

theorem C3_odd_source_tiled_unevenly:
  assumes "0 \<le> width" "0 \<le> height" "odd width \<or> odd height"
    and "im_size img = (width, height)"
  shows "dropped width height = []
    \<and> (\<forall>x y. inside (width, height) x y \<longrightarrow>
          (\<exists>a. owners width height x y = [a]
             \<and> held (crop_region img (box_of a)) a x y = Some (im_pixel img x y)))
    \<and> map (\<lambda>a. im_size (crop_region img (box_of a))) (avatars width height)
        = [(width div 2, height div 2), (width - width div 2, height div 2),
           (width div 2, height - height div 2), (width - width div 2, height - height div 2)]
    \<and> (odd width \<longrightarrow> width - width div 2 = width div 2 + 1)
    \<and> (odd height \<longrightarrow> height - height div 2 = height div 2 + 1)"
proof -
  have tile: "\<exists>a. owners width height x y = [a]
             \<and> held (crop_region img (box_of a)) a x y = Some (im_pixel img x y)"
    if ins: "inside (width, height) x y" for x y
  proof -
    obtain a where a: "owners width height x y = [a]"
      using owners_single [OF ins] by blast
    have "held (crop_region img (box_of a)) a x y = Some (im_pixel img x y)"
      using owner_in_box [OF a] ins assms(4) by (simp add: held_crop)
    then show ?thesis using a by blast
  qed
  have "odd width \<longrightarrow> width - width div 2 = width div 2 + 1"
    and "odd height \<longrightarrow> height - height div 2 = height div 2 + 1"
    by presburger+
  then show ?thesis
    using tile by (simp add: dropped_empty crop_sizes)
qed

theorem C3_odd_source_tiled_unevenly_witness:
  "(0::int) \<le> 3 \<and> (0::int) \<le> 2 \<and> odd (3::int)
   \<and> im_size (demo_img 3 2) = (3, 2)
   \<and> inside (3, 2) 2 1
   \<and> owners 3 2 2 1 = [(1, 1, 3, 2, ''critical_reviewer.png'')]
   \<and> held (crop_region (demo_img 3 2) (1, 1, 3, 2)) (1, 1, 3, 2, ''critical_reviewer.png'') 2 1
       = Some (im_pixel (demo_img 3 2) 2 1)
   \<and> dropped 3 2 = []
   \<and> map (\<lambda>a. im_size (crop_region (demo_img 3 2) (box_of a))) (avatars 3 2)
       = [(1, 1), (2, 1), (1, 1), (2, 1)]
   \<and> (3::int) - 3 div 2 = 3 div 2 + 1"
proof -
  have sz: "im_size (demo_img 3 2) = (3, 2)" by (simp add: demo_img_def)
  have ins: "inside (3, 2) 2 1" by (simp add: inside_def)
  have own: "owners 3 2 2 1 = [(1, 1, 3, 2, ''critical_reviewer.png'')]"
    by (simp add: owners_inside ins)
  have "(0::int) \<le> 3" "(0::int) \<le> 2" "odd (3::int) \<or> odd (2::int)" by simp_all
  note th = C3_odd_source_tiled_unevenly [OF this sz]
  from th ins have "\<exists>a. owners 3 2 2 1 = [a]
      \<and> held (crop_region (demo_img 3 2) (box_of a)) a 2 1 = Some (im_pixel (demo_img 3 2) 2 1)"
    by blast
  then have "held (crop_region (demo_img 3 2) (1, 1, 3, 2)) (1, 1, 3, 2, ''critical_reviewer.png'') 2 1
       = Some (im_pixel (demo_img 3 2) 2 1)"
    unfolding own by simp
  moreover have "dropped 3 2 = []" using th by blast
  moreover have "map (\<lambda>a. im_size (crop_region (demo_img 3 2) (box_of a))) (avatars 3 2)
       = [(1, 1), (2, 1), (1, 1), (2, 1)]"
    using th by simp
  moreover have "(3::int) - 3 div 2 = 3 div 2 + 1" using th by simp
  ultimately show ?thesis using ins own sz by simp
qed

subsection \<open>C4\<close>

text \<open>
  C4. The exit code is 0 exactly when all four files were saved. When an exception that
  is not an import error is raised in the try block, the exit code is 1 and the run
  prints exactly one error line, which carries the message of the exception, after the
  confirmation lines of the files saved before it.
\<close>

theorem C4_exit_code_and_error_line:
  "(snd (run env w) = 0 \<longleftrightarrow>
      written (effects env w) =
        [path_join dest_dir ''technical_architect.png'', path_join dest_dir ''researcher.png'',
         path_join dest_dir ''cvpr_researcher.png'', path_join dest_dir ''critical_reviewer.png''])
   \<and> (pillow_installed env \<and> try_body env w = (w', Some e) \<and> \<not> is_ImportError e \<longrightarrow>
        snd (run env w) = 1
        \<and> (\<exists>k<4. printed env w =
              map (\<lambda>n. ''Saved '' @ n)
                (take k [''technical_architect.png'', ''researcher.png'',
                         ''cvpr_researcher.png'', ''critical_reviewer.png''])
              @ [''Error: '' @ exn_str e])
        \<and> filter (\<lambda>l. take 7 l = ''Error: '') (printed env w) = [''Error: '' @ exn_str e])"
proof -
  have exit: "snd (run env w) = 0 \<longleftrightarrow>
      written (effects env w) = map out_path (avatars 0 0)"
  proof (cases env w rule: written_run)
    case all
    then show ?thesis by simp
  next
    case (part k)
    have "length (written (effects env w)) < length (map out_path (avatars 0 0))"
      unfolding part(3) using part(2) by (simp add: length_avatars)
    then have "written (effects env w) \<noteq> map out_path (avatars 0 0)" by auto
    then show ?thesis using part(1) by simp
  qed
  have raised: "snd (run env w) = 1
        \<and> (\<exists>k<4. printed env w =
              map (\<lambda>n. ''Saved '' @ n)
                (take k [''technical_architect.png'', ''researcher.png'',
                         ''cvpr_researcher.png'', ''critical_reviewer.png''])
              @ [''Error: '' @ exn_str e])
        \<and> filter (\<lambda>l. take 7 l = ''Error: '') (printed env w) = [''Error: '' @ exn_str e]"
    if h: "pillow_installed env" "try_body env w = (w', Some e)" "\<not> is_ImportError e"
  proof -
    have run: "run env w = (print (''Error: '' @ exn_str e) w', 1)"
      using run_raised [OF h(1,2)] h(3) by (simp add: handler_line_def)
    obtain k where k: "k < 4"
      "stdout w' = stdout w @ map (\<lambda>n. ''Saved '' @ n)
         (take k [''technical_architect.png'', ''researcher.png'', ''cvpr_researcher.png'',
                  ''critical_reviewer.png''])"
      using try_body_stdout [OF h(2)] by blast
    have pr: "printed env w = map (\<lambda>n. ''Saved '' @ n)
         (take k [''technical_architect.png'', ''researcher.png'', ''cvpr_researcher.png'',
                  ''critical_reviewer.png''])
         @ [''Error: '' @ exn_str e]"
      by (simp add: printed_def run print_simps k(2))
    have "filter (\<lambda>l. take 7 l = ''Error: '') (map (\<lambda>n. ''Saved '' @ n) ns) = []" for ns
      by (induction ns) simp_all
    then have "filter (\<lambda>l. take 7 l = ''Error: '') (printed env w) = [''Error: '' @ exn_str e]"
      unfolding pr by simp
    then show ?thesis using run pr k(1) by auto
  qed
  show ?thesis using exit raised unfolding out_paths_joined by blast
qed

theorem C4_exit_code_and_error_line_witness:
  "pillow_installed (failing_at ''cvpr_researcher.png'')
   \<and> snd (try_body (failing_at ''cvpr_researcher.png'') (demo_world (demo_img 4 4)))
       = Some (Exn OSError ''[Errno 28] No space left on device'')
   \<and> \<not> is_ImportError (Exn OSError ''[Errno 28] No space left on device'')
   \<and> snd (run (failing_at ''cvpr_researcher.png'') (demo_world (demo_img 4 4))) = 1
   \<and> printed (failing_at ''cvpr_researcher.png'') (demo_world (demo_img 4 4))
       = [''Saved technical_architect.png'', ''Saved researcher.png'',
          ''Error: [Errno 28] No space left on device'']
   \<and> filter (\<lambda>l. take 7 l = ''Error: '')
         (printed (failing_at ''cvpr_researcher.png'') (demo_world (demo_img 4 4)))
       = [''Error: [Errno 28] No space left on device'']"
proof -
  have h1: "pillow_installed (failing_at ''cvpr_researcher.png'')"
    by (simp add: failing_at_def no_faults_def)
  have tb: "snd (try_body (failing_at ''cvpr_researcher.png'') (demo_world (demo_img 4 4)))
       = Some (Exn OSError ''[Errno 28] No space left on device'')"
    by code_simp
  then have h2: "try_body (failing_at ''cvpr_researcher.png'') (demo_world (demo_img 4 4))
       = (fst (try_body (failing_at ''cvpr_researcher.png'') (demo_world (demo_img 4 4))),
          Some (Exn OSError ''[Errno 28] No space left on device''))"
    by (simp add: prod_eq_iff)
  have h3: "\<not> is_ImportError (Exn OSError ''[Errno 28] No space left on device'')"
    by (simp add: is_ImportError_def)
  have pr: "printed (failing_at ''cvpr_researcher.png'') (demo_world (demo_img 4 4))
       = [''Saved technical_architect.png'', ''Saved researcher.png'',
          ''Error: [Errno 28] No space left on device'']"
    by code_simp
  show ?thesis
    using C4_exit_code_and_error_line [of "failing_at ''cvpr_researcher.png''"
        "demo_world (demo_img 4 4)"
        "fst (try_body (failing_at ''cvpr_researcher.png'') (demo_world (demo_img 4 4)))"
        "Exn OSError ''[Errno 28] No space left on device''"]
      h1 h2 h3 tb pr
    by simp
qed

subsection \<open>C5\<close>

text \<open>
  C5 (the specification: when Pillow is unavailable the program reports it with an
  installation hint and exits with code 1). The script imports Pillow on line 1, before
  the try block whose handler prints the hint, so the handler never sees the failed
  import: the interpreter ends the process with code 1 and a traceback on standard
  error, and nothing is printed on standard output.
\<close>

theorem C5_missing_pillow_prints_no_hint:
  "snd (run without_pillow (demo_world (demo_img 4 4))) = 1
   \<and> printed without_pillow (demo_world (demo_img 4 4)) = []
   \<and> stdout (fst (run without_pillow (demo_world (demo_img 4 4)))) = []
   \<and> stderr (fst (run without_pillow (demo_world (demo_img 4 4))))
       = [''ModuleNotFoundError: No module named '' @ quoted ''PIL'']
   \<and> handler_line (Exn ModuleNotFoundError (''No module named '' @ quoted ''PIL''))
       = ''Pillow not found. Please install with: pip install Pillow''"
  by (simp add: run_def without_pillow_def no_faults_def demo_world_def printed_def
      handler_line_def is_ImportError_def)

subsection \<open>C6\<close>

text \<open>
  C6. If nothing exists at the source path, the process exits with code 1 and no output
  file is created: the files are those the run started with, and the run wrote none.
\<close>

theorem C6_missing_source_exits_1_no_output:
  assumes "\<not> path_exists w source_path"
  shows "snd (run env w) = 1 \<and> files (fst (run env w)) = files w \<and> written (effects env w) = []"
proof -
  note miss = image_open_missing [OF assms, of env]
  show ?thesis
  proof (cases env w rule: run_cases)
    case no_pillow
    then show ?thesis by (simp add: effects_untouched)
  next
    case (dir_fails e)
    then show ?thesis by (simp add: effects_untouched print_simps)
  next
    case (open_fails w1 e)
    have "journal (fst (run env w)) = journal (after_saving img [] w1)" for img
      by (simp add: open_fails(4) print_simps after_saving_Nil)
    from written_saved [OF open_fails(2) this]
    have "written (effects env w) = []" by simp
    then show ?thesis
      by (simp add: open_fails(4) print_simps ensure_dir_Inr(1) [OF open_fails(2)])
  next
    case (all_saved w1 img width height)
    then show ?thesis using miss by simp
  next
    case (save_fails w1 img width height e)
    then show ?thesis using miss by simp
  qed
qed

theorem C6_missing_source_exits_1_no_output_witness:
  "\<not> path_exists empty_world source_path
   \<and> snd (run no_faults empty_world) = 1
   \<and> files (fst (run no_faults empty_world)) = files empty_world
   \<and> written (effects no_faults empty_world) = []
   \<and> printed no_faults empty_world
       = [''Error: [Errno 2] No such file or directory: '' @ quoted source_path]"
proof -
  have h: "\<not> path_exists empty_world source_path"
    by (simp add: path_exists_def empty_world_def)
  have pr: "printed no_faults empty_world
       = [''Error: [Errno 2] No such file or directory: '' @ quoted source_path]"
    by code_simp
  show ?thesis
    using C6_missing_source_exits_1_no_output [OF h, of no_faults] h pr by simp
qed

subsection \<open>C7\<close>

text \<open>
  C7. If nothing exists at the path of the destination directory when the run starts,
  the directory is made, with its missing parent, before any output file is written:
  the making is the first effect of the run on the file system, and every write that
  follows finds both directories in place. In every run, no file is written while the
  destination directory is absent.
\<close>

theorem C7_directory_made_before_any_write:
  "(\<forall>(ev, ds)\<in>set (effects env w). \<forall>p. ev = Wrote p \<longrightarrow> dest_dir \<in> ds)
   \<and> (\<not> path_exists w dest_dir \<longrightarrow>
        effects env w = []
        \<or> (\<exists>rest. effects env w = (MadeDirs dest_dir, dirs w) # rest
              \<and> (\<forall>(ev, ds)\<in>set rest. (\<exists>p. ev = Wrote p) \<and> {''public'', ''public/avatars''} \<subseteq> ds)
              \<and> {''public'', ''public/avatars''} \<subseteq> dirs (fst (run env w))))
   \<and> (\<not> path_exists w dest_dir \<and> pillow_installed env \<and> makedirs_fault env dest_dir = None \<longrightarrow>
        effects env w \<noteq> [] \<and> dest_dir \<in> dirs (fst (run env w)))"
proof (cases env w rule: effects_run)
  case untouched
  have "\<not> (\<not> path_exists w dest_dir \<and> pillow_installed env \<and> makedirs_fault env dest_dir = None)"
    using untouched(1) by (auto simp: ensure_dir_cases split: if_splits option.splits)
  then show ?thesis using untouched(2) by simp
next
  case (touched w1 as)
  have writes: "\<forall>(ev, ds)\<in>set (effects env w). \<forall>p. ev = Wrote p \<longrightarrow> dest_dir \<in> ds"
    unfolding touched(3) using touched(4) by auto
  have second: "effects env w = []
        \<or> (\<exists>rest. effects env w = (MadeDirs dest_dir, dirs w) # rest
              \<and> (\<forall>(ev, ds)\<in>set rest. (\<exists>p. ev = Wrote p) \<and> {''public'', ''public/avatars''} \<subseteq> ds)
              \<and> {''public'', ''public/avatars''} \<subseteq> dirs (fst (run env w)))"
    and third: "effects env w \<noteq> [] \<and> dest_dir \<in> dirs (fst (run env w))"
    if ne: "\<not> path_exists w dest_dir"
  proof -
    have d: "dirs w1 = dirs w \<union> {''public'', ''public/avatars''}"
      using ensure_dir_Inr(6) [OF touched(2)] ne by simp
    have e: "effects env w
        = (MadeDirs dest_dir, dirs w) # map (\<lambda>a. (Wrote (out_path a), dirs w1)) as"
      using touched(3) ne by simp
    have r: "\<forall>(ev, ds)\<in>set (map (\<lambda>a. (Wrote (out_path a), dirs w1)) as).
            (\<exists>p. ev = Wrote p) \<and> {''public'', ''public/avatars''} \<subseteq> ds"
      unfolding d by simp
    have s: "{''public'', ''public/avatars''} \<subseteq> dirs (fst (run env w))"
      unfolding touched(5) d by simp
    show "effects env w = []
        \<or> (\<exists>rest. effects env w = (MadeDirs dest_dir, dirs w) # rest
              \<and> (\<forall>(ev, ds)\<in>set rest. (\<exists>p. ev = Wrote p) \<and> {''public'', ''public/avatars''} \<subseteq> ds)
              \<and> {''public'', ''public/avatars''} \<subseteq> dirs (fst (run env w)))"
      using e r s by (intro disjI2 exI [of _ "map (\<lambda>a. (Wrote (out_path a), dirs w1)) as"] conjI)
    show "effects env w \<noteq> [] \<and> dest_dir \<in> dirs (fst (run env w))"
      using e s by (simp add: dest_dir_def)
  qed
  show ?thesis
  proof (intro conjI impI)
    show "\<forall>(ev, ds)\<in>set (effects env w). \<forall>p. ev = Wrote p \<longrightarrow> dest_dir \<in> ds"
      by (rule writes)
  next
    assume "\<not> path_exists w dest_dir"
    then show "effects env w = []
        \<or> (\<exists>rest. effects env w = (MadeDirs dest_dir, dirs w) # rest
              \<and> (\<forall>(ev, ds)\<in>set rest. (\<exists>p. ev = Wrote p) \<and> {''public'', ''public/avatars''} \<subseteq> ds)
              \<and> {''public'', ''public/avatars''} \<subseteq> dirs (fst (run env w)))"
      by (rule second)
  next
    assume "\<not> path_exists w dest_dir \<and> pillow_installed env \<and> makedirs_fault env dest_dir = None"
    then show "effects env w \<noteq> []" using third by blast
  next
    assume "\<not> path_exists w dest_dir \<and> pillow_installed env \<and> makedirs_fault env dest_dir = None"
    then show "dest_dir \<in> dirs (fst (run env w))" using third by blast
  qed
qed

theorem C7_directory_made_before_any_write_witness:
  "\<not> path_exists (demo_world (demo_img 4 4)) dest_dir
   \<and> pillow_installed no_faults \<and> makedirs_fault no_faults dest_dir = None
   \<and> effects no_faults (demo_world (demo_img 4 4))
       = [(MadeDirs ''public/avatars'', {}),
          (Wrote ''public/avatars/technical_architect.png'', {''public'', ''public/avatars''}),
          (Wrote ''public/avatars/researcher.png'', {''public'', ''public/avatars''}),
          (Wrote ''public/avatars/cvpr_researcher.png'', {''public'', ''public/avatars''}),
          (Wrote ''public/avatars/critical_reviewer.png'', {''public'', ''public/avatars''})]
   \<and> effects no_faults (demo_world (demo_img 4 4)) \<noteq> []
   \<and> dest_dir \<in> dirs (fst (run no_faults (demo_world (demo_img 4 4))))"
proof -
  have h: "\<not> path_exists (demo_world (demo_img 4 4)) dest_dir"
    "pillow_installed no_faults" "makedirs_fault no_faults dest_dir = None"
    by (simp_all add: path_exists_def demo_world_def no_faults_def dest_dir_def source_path_def)
  have e: "effects no_faults (demo_world (demo_img 4 4))
       = [(MadeDirs ''public/avatars'', {}),
          (Wrote ''public/avatars/technical_architect.png'', {''public'', ''public/avatars''}),
          (Wrote ''public/avatars/researcher.png'', {''public'', ''public/avatars''}),
          (Wrote ''public/avatars/cvpr_researcher.png'', {''public'', ''public/avatars''}),
          (Wrote ''public/avatars/critical_reviewer.png'', {''public'', ''public/avatars''})]"
    by code_simp
  show ?thesis
    using C7_directory_made_before_any_write [of no_faults "demo_world (demo_img 4 4)"] h e
    by simp
qed

subsection \<open>C8\<close>

text \<open>
  C8. Running the program twice on the same source image produces identical output
  files: when both runs succeed, the second run writes each of the four files again and
  leaves the files and the directories exactly as the first run left them. The two runs
  may differ in their environment.
\<close>

theorem C8_second_run_same_files:
  assumes "snd (run env1 w) = 0" "snd (run env2 (fst (run env1 w))) = 0"
  shows "files (fst (run env2 (fst (run env1 w)))) = files (fst (run env1 w))
    \<and> dirs (fst (run env2 (fst (run env1 w)))) = dirs (fst (run env1 w))
    \<and> written (effects env2 (fst (run env1 w))) =
           [path_join dest_dir ''technical_architect.png'', path_join dest_dir ''researcher.png'',
            path_join dest_dir ''cvpr_researcher.png'', path_join dest_dir ''critical_reviewer.png'']"
proof -
  obtain w1 img width height where first: "ensure_dir env1 w = Inr w1"
    "files w source_path = Some (Png img)" "im_size img = (width, height)"
    "run env1 w = (after_saving img (avatars width height) w1, 0)" "dest_dir \<in> dirs w1"
    using run_zero [OF assms(1)] by blast
  define w' where "w' = after_saving img (avatars width height) w1"
  have w': "fst (run env1 w) = w'" by (simp add: first(4) w'_def)
  have fw': "files w' =
      foldl (\<lambda>f a. f(out_path a \<mapsto> Png (crop_region img (box_of a)))) (files w) (avatars width height)"
    unfolding w'_def by (rule files_after_saving [OF first(1)])
  have src: "files w' source_path = Some (Png img)"
    unfolding fw' using source_not_output [of width height] first(2)
    by (simp add: files_foldl_other)
  have "dest_dir \<in> dirs w'" using first(5) by (simp add: w'_def after_saving_simps)
  then have ens: "ensure_dir env2 w' = Inr w'"
    by (simp add: ensure_dir_cases path_exists_def)
  have zero: "snd (run env2 w') = 0" using assms(2) unfolding w' .
  obtain w2 img2 width2 height2 where second: "ensure_dir env2 w' = Inr w2"
    "files w' source_path = Some (Png img2)" "im_size img2 = (width2, height2)"
    "run env2 w' = (after_saving img2 (avatars width2 height2) w2, 0)" "dest_dir \<in> dirs w2"
    using run_zero [OF zero] by blast
  have w2: "w2 = w'" using second(1) ens by simp
  have im: "img2 = img" using second(2) src by simp
  then have sz: "width2 = width" "height2 = height" using second(3) first(3) by simp_all
  have "files (fst (run env2 w')) =
      foldl (\<lambda>f a. f(out_path a \<mapsto> Png (crop_region img (box_of a)))) (files w')
        (avatars width height)"
    by (simp add: second(4) after_saving_simps w2 sz im)
  then have same: "files (fst (run env2 w')) = files w'"
    unfolding fw' by (simp add: resave_same_files)
  have ds: "dirs (fst (run env2 w')) = dirs w'"
    by (simp add: second(4) after_saving_simps w2)
  have again: "written (effects env2 w') =
           [path_join dest_dir ''technical_architect.png'', path_join dest_dir ''researcher.png'',
            path_join dest_dir ''cvpr_researcher.png'', path_join dest_dir ''critical_reviewer.png'']"
  proof (cases env2 w' rule: written_run)
    case all
    then show ?thesis unfolding out_paths_joined by simp
  next
    case (part k)
    then show ?thesis using zero by simp
  qed
  show ?thesis unfolding w' using same ds again by blast
qed

theorem C8_second_run_same_files_witness:
  "snd (run no_faults (demo_world (demo_img 4 4))) = 0
   \<and> snd (run no_faults (fst (run no_faults (demo_world (demo_img 4 4))))) = 0
   \<and> files (fst (run no_faults (fst (run no_faults (demo_world (demo_img 4 4))))))
       = files (fst (run no_faults (demo_world (demo_img 4 4))))
   \<and> dirs (fst (run no_faults (fst (run no_faults (demo_world (demo_img 4 4))))))
       = dirs (fst (run no_faults (demo_world (demo_img 4 4))))
   \<and> written (effects no_faults (fst (run no_faults (demo_world (demo_img 4 4)))))
       = [''public/avatars/technical_architect.png'', ''public/avatars/researcher.png'',
          ''public/avatars/cvpr_researcher.png'', ''public/avatars/critical_reviewer.png'']"
proof -
  have h1: "snd (run no_faults (demo_world (demo_img 4 4))) = 0"
    by code_simp
  have h2: "snd (run no_faults (fst (run no_faults (demo_world (demo_img 4 4))))) = 0"
    by code_simp
  show ?thesis
    using C8_second_run_same_files [OF h1 h2] h1 h2
    by (simp add: path_join_def dest_dir_def)
qed

subsection \<open>C9\<close>

text \<open>
  C9. An error does not undo what the run has done. If saving file number n + 1
  (0 <= n < 4) raises an exception, the n files saved before it stay on disk, exactly
  n confirmation lines have been printed, followed by the handler's line, and the
  directories are those the directory step left (none is removed). Every path other
  than those n files and the file whose save raised holds what it held before the run;
  the file whose save raised holds what it held before, or no image at all. In
  particular, when opening the source image fails, a destination directory that was
  absent has been made all the same.
\<close>

theorem C9_error_leaves_partial_output:
  "(pillow_installed env \<and> ensure_dir env w = Inr w1
      \<and> image_open env source_path w = Inr img \<and> im_size img = (width, height)
      \<and> 0 \<le> width \<and> 0 \<le> height \<and> n < 4
      \<and> (\<forall>j<n. snd (save env (crop_region img (box_of (avatars width height ! j)))
                        (out_path (avatars width height ! j))
                        (after_saving img (take j (avatars width height)) w1)) = None)
      \<and> snd (save env (crop_region img (box_of (avatars width height ! n)))
                (out_path (avatars width height ! n))
                (after_saving img (take n (avatars width height)) w1)) = Some e
    \<longrightarrow> snd (run env w) = 1
      \<and> (\<forall>a\<in>set (take n (avatars width height)).
            files (fst (run env w)) (out_path a) = Some (Png (crop_region img (box_of a))))
      \<and> (\<forall>p. p \<notin> set (map out_path (take n (avatars width height)))
               \<and> p \<noteq> out_path (avatars width height ! n) \<longrightarrow>
            files (fst (run env w)) p = files w p)
      \<and> (files (fst (run env w)) (out_path (avatars width height ! n))
            = files w (out_path (avatars width height ! n))
          \<or> files (fst (run env w)) (out_path (avatars width height ! n)) = Some Junk)
      \<and> written (effects env w) = map out_path (take n (avatars width height))
      \<and> printed env w
          = map (\<lambda>a. ''Saved '' @ name_of a) (take n (avatars width height)) @ [handler_line e]
      \<and> length (filter (\<lambda>l. take 6 l = ''Saved '') (printed env w)) = n
      \<and> dirs (fst (run env w)) = dirs w1 \<and> dirs w \<subseteq> dirs (fst (run env w)))
   \<and> (pillow_installed env \<and> \<not> path_exists w dest_dir \<and> makedirs_fault env dest_dir = None
      \<and> image_open env source_path w = Inl e
    \<longrightarrow> snd (run env w) = 1 \<and> dest_dir \<notin> dirs w \<and> dest_dir \<in> dirs (fst (run env w))
      \<and> files (fst (run env w)) = files w \<and> written (effects env w) = [])"
proof (intro conjI impI)
  assume h: "pillow_installed env \<and> ensure_dir env w = Inr w1
      \<and> image_open env source_path w = Inr img \<and> im_size img = (width, height)
      \<and> 0 \<le> width \<and> 0 \<le> height \<and> n < 4
      \<and> (\<forall>j<n. snd (save env (crop_region img (box_of (avatars width height ! j)))
                        (out_path (avatars width height ! j))
                        (after_saving img (take j (avatars width height)) w1)) = None)
      \<and> snd (save env (crop_region img (box_of (avatars width height ! n)))
                (out_path (avatars width height ! n))
                (after_saving img (take n (avatars width height)) w1)) = Some e"
  define avs where "avs = avatars width height"
  define X where "X = after_saving img (take n avs) w1"
  have len: "length avs = 4" by (simp add: avs_def length_avatars)
  have n: "n < 4" and ens: "ensure_dir env w = Inr w1" and sz: "0 \<le> width" "0 \<le> height"
    using h by simp_all
  have mem: "avs ! j \<in> set (avatars width height)" if "j < 4" for j
    using that len by (simp add: avs_def)
  have ok: "snd (save env (crop_region img (box_of (avs ! j))) (out_path (avs ! j))
                  (after_saving img (take j avs) w1)) = None" if "j < n" for j
    using h that unfolding avs_def by blast
  have bad: "snd (save env (crop_region img (box_of (avs ! n))) (out_path (avs ! n))
                  (after_saving img (take n avs) w1)) = Some e"
    using h unfolding avs_def by blast
  have dir: "dest_dir \<in> dirs w1" if "0 < n"
  proof -
    have "save_error env (dirs w1) (files w1) (crop_region img (box_of (avs ! 0))) (out_path (avs ! 0))
        = None"
      using ok [OF that] by (simp add: snd_save after_saving_Nil)
    then have "dirname (out_path (avs ! 0)) \<in> dirs w1" by (rule save_error_None_dir)
    then show ?thesis using out_path_dirname [OF mem [of 0]] by simp
  qed
  have step: "step_error env w1 img (avs ! j)
      = save_error env (dirs (after_saving img (take j avs) w1))
          (files (after_saving img (take j avs) w1))
          (crop_region img (box_of (avs ! j))) (out_path (avs ! j))" if "j \<le> n" for j
  proof -
    have j: "j < 4" using that n by simp
    have "take j avs = [] \<or> dest_dir \<in> dirs w1"
      using dir that by (cases "j = 0") auto
    from save_error_after [OF mem [OF j] this]
    show ?thesis
      by (simp add: step_error_def crop_ok [OF sz mem [OF j]])
  qed
  have none: "\<forall>j<n. step_error env w1 img (avatars width height ! j) = None"
    using ok step by (simp add: snd_save avs_def [symmetric])
  have some: "step_error env w1 img (avatars width height ! n) = Some e"
    using bad step [of n] by (simp add: snd_save avs_def [symmetric])
  have run: "run env w = (print (handler_line e) (stop_world env img (avs ! n) X), 1)"
    unfolding avs_def X_def using h none some by (intro run_stops_at) simp_all
  have fX: "files X =
      foldl (\<lambda>f a. f(out_path a \<mapsto> Png (crop_region img (box_of a)))) (files w) (take n avs)"
    unfolding X_def by (rule files_after_saving [OF ens])
  have dist: "distinct (map out_path (take n avs))"
    unfolding avs_def take_map [symmetric] using out_paths_distinct by (rule distinct_take)
  have "map out_path avs ! n \<notin> set (take n (map out_path avs))"
    using out_paths_distinct [of width height] n len unfolding avs_def [symmetric]
    by (intro nth_not_in_take) simp_all
  then have fresh: "out_path (avs ! n) \<notin> set (map out_path (take n avs))"
    using n len by (simp add: take_map)
  have fr: "files (fst (run env w)) p = files (stop_world env img (avs ! n) X) p" for p
    by (simp add: run print_simps)
  show "snd (run env w) = 1" by (simp add: run)
  show "\<forall>a\<in>set (take n (avatars width height)).
            files (fst (run env w)) (out_path a) = Some (Png (crop_region img (box_of a)))"
  proof
    fix a assume a: "a \<in> set (take n (avatars width height))"
    then have "out_path a \<in> set (map out_path (take n avs))" by (simp add: avs_def)
    then have "out_path a \<noteq> out_path (avs ! n)" using fresh by metis
    then have "files (fst (run env w)) (out_path a) = files X (out_path a)"
      unfolding fr by (rule files_stop_world(1))
    also have "\<dots> = Some (Png (crop_region img (box_of a)))"
      unfolding fX using dist a by (auto simp: avs_def intro: files_foldl_hit)
    finally show "files (fst (run env w)) (out_path a) = Some (Png (crop_region img (box_of a)))" .
  qed
  show "\<forall>p. p \<notin> set (map out_path (take n (avatars width height)))
               \<and> p \<noteq> out_path (avatars width height ! n) \<longrightarrow>
            files (fst (run env w)) p = files w p"
  proof (intro allI impI)
    fix p assume p: "p \<notin> set (map out_path (take n (avatars width height)))
               \<and> p \<noteq> out_path (avatars width height ! n)"
    then have "files (fst (run env w)) p = files X p"
      unfolding fr avs_def by (intro files_stop_world(1)) simp
    also have "\<dots> = files w p"
      unfolding fX avs_def using p by (intro files_foldl_other) simp
    finally show "files (fst (run env w)) p = files w p" .
  qed
  have "files X (out_path (avs ! n)) = files w (out_path (avs ! n))"
    unfolding fX using fresh by (rule files_foldl_other)
  then show "files (fst (run env w)) (out_path (avatars width height ! n))
            = files w (out_path (avatars width height ! n))
          \<or> files (fst (run env w)) (out_path (avatars width height ! n)) = Some Junk"
    unfolding fr avs_def [symmetric]
    using files_stop_world(2) [of env img "avs ! n" X] by auto
  have "journal (fst (run env w)) = journal (after_saving img (take n avs) w1)"
    by (simp add: run print_simps stop_world_simps X_def)
  from written_saved [OF ens this]
  show "written (effects env w) = map out_path (take n (avatars width height))"
    by (simp add: avs_def)
  have pr: "printed env w = map (\<lambda>a. ''Saved '' @ name_of a) (take n avs) @ [handler_line e]"
    by (simp add: printed_def run print_simps stop_world_simps X_def after_saving_simps
        ensure_dir_Inr(2) [OF ens])
  then show "printed env w
          = map (\<lambda>a. ''Saved '' @ name_of a) (take n (avatars width height)) @ [handler_line e]"
    by (simp add: avs_def)
  show "length (filter (\<lambda>l. take 6 l = ''Saved '') (printed env w)) = n"
    unfolding pr saved_lines_count using n len by simp
  show "dirs (fst (run env w)) = dirs w1"
    by (simp add: run print_simps stop_world_simps X_def after_saving_simps)
  then show "dirs w \<subseteq> dirs (fst (run env w))"
    using ensure_dir_Inr(4) [OF ens] by simp
next
  assume h: "pillow_installed env \<and> \<not> path_exists w dest_dir \<and> makedirs_fault env dest_dir = None
      \<and> image_open env source_path w = Inl e"
  define w1 where "w1 = w\<lparr> dirs := dirs w \<union> {''public'', ''public/avatars''},
                         journal := journal w @ [(MadeDirs dest_dir, dirs w)] \<rparr>"
  have ens: "ensure_dir env w = Inr w1"
    using h by (simp add: ensure_dir_cases w1_def)
  have run: "run env w = (print (handler_line e) w1, 1)"
    using h ens by (intro run_open_fails) simp_all
  show "snd (run env w) = 1" by (simp add: run)
  show "dest_dir \<notin> dirs w" using h by (simp add: path_exists_def)
  show "dest_dir \<in> dirs (fst (run env w))"
    by (simp add: run print_simps w1_def dest_dir_def)
  show "files (fst (run env w)) = files w"
    by (simp add: run print_simps w1_def)
  have "journal (fst (run env w)) = journal (after_saving img [] w1)" for img
    by (simp add: run print_simps after_saving_Nil)
  from written_saved [OF ens this]
  show "written (effects env w) = []" by simp
qed

theorem C9_error_leaves_partial_output_witness:
  "pillow_installed (failing_at ''researcher.png'')
   \<and> ensure_dir (failing_at ''researcher.png'') (older_world (demo_img 4 4) (demo_img 1 1))
       = Inr (older_world (demo_img 4 4) (demo_img 1 1))
   \<and> files (older_world (demo_img 4 4) (demo_img 1 1)) ''public/avatars/researcher.png''
       = Some (Png (demo_img 1 1))
   \<and> snd (save (failing_at ''researcher.png'')
         (crop_region (demo_img 4 4) (box_of (avatars 4 4 ! 1))) (out_path (avatars 4 4 ! 1))
         (after_saving (demo_img 4 4) (take 1 (avatars 4 4))
            (older_world (demo_img 4 4) (demo_img 1 1))))
       = Some (Exn OSError ''[Errno 28] No space left on device'')
   \<and> snd (run (failing_at ''researcher.png'') (older_world (demo_img 4 4) (demo_img 1 1))) = 1
   \<and> files (fst (run (failing_at ''researcher.png'') (older_world (demo_img 4 4) (demo_img 1 1))))
         ''public/avatars/technical_architect.png''
       = Some (Png (crop_region (demo_img 4 4) (0, 0, 2, 2)))
   \<and> files (fst (run (failing_at ''researcher.png'') (older_world (demo_img 4 4) (demo_img 1 1))))
         ''public/avatars/researcher.png'' = Some Junk
   \<and> files (fst (run (failing_at ''researcher.png'') (older_world (demo_img 4 4) (demo_img 1 1))))
         ''public/avatars/cvpr_researcher.png'' = None
   \<and> written (effects (failing_at ''researcher.png'') (older_world (demo_img 4 4) (demo_img 1 1)))
       = [''public/avatars/technical_architect.png'']
   \<and> printed (failing_at ''researcher.png'') (older_world (demo_img 4 4) (demo_img 1 1))
       = [''Saved technical_architect.png'', ''Error: [Errno 28] No space left on device'']
   \<and> \<not> path_exists empty_world dest_dir
   \<and> image_open no_faults source_path empty_world
       = Inl (Exn FileNotFoundError (''[Errno 2] No such file or directory: '' @ quoted source_path))
   \<and> snd (run no_faults empty_world) = 1
   \<and> dest_dir \<notin> dirs empty_world
   \<and> dest_dir \<in> dirs (fst (run no_faults empty_world))"
proof -
  let ?E = "failing_at ''researcher.png''"
  let ?I = "demo_img 4 4"
  let ?W = "older_world (demo_img 4 4) (demo_img 1 1)"
  let ?X = "Exn OSError ''[Errno 28] No space left on device''"
  let ?N = "Exn FileNotFoundError (''[Errno 2] No such file or directory: '' @ quoted source_path)"
  have a1: "pillow_installed ?E" by (simp add: failing_at_def no_faults_def)
  have a2: "ensure_dir ?E ?W = Inr ?W"
    by (simp add: ensure_dir_cases path_exists_def older_world_def dest_dir_def)
  have a3: "image_open ?E source_path ?W = Inr ?I"
    by (rule image_open_ok) (simp_all add: older_world_def source_path_def failing_at_def no_faults_def)
  have a4: "im_size ?I = (4, 4)" by (simp add: demo_img_def)
  have old: "files ?W ''public/avatars/researcher.png'' = Some (Png (demo_img 1 1))"
    by (simp add: older_world_def)
  have e0: "save_error ?E (dirs (after_saving ?I (take 0 (avatars 4 4)) ?W))
              (files (after_saving ?I (take 0 (avatars 4 4)) ?W))
              (crop_region ?I (box_of (avatars 4 4 ! 0))) (out_path (avatars 4 4 ! 0)) = None"
    by code_simp
  have e1: "save_error ?E (dirs (after_saving ?I (take 1 (avatars 4 4)) ?W))
              (files (after_saving ?I (take 1 (avatars 4 4)) ?W))
              (crop_region ?I (box_of (avatars 4 4 ! 1))) (out_path (avatars 4 4 ! 1)) = Some ?X"
    by code_simp
  have a5: "\<forall>j<1. snd (save ?E (crop_region ?I (box_of (avatars 4 4 ! j)))
                        (out_path (avatars 4 4 ! j))
                        (after_saving ?I (take j (avatars 4 4)) ?W)) = None"
    unfolding snd_save using e0 by simp
  have a6: "snd (save ?E (crop_region ?I (box_of (avatars 4 4 ! 1))) (out_path (avatars 4 4 ! 1))
         (after_saving ?I (take 1 (avatars 4 4)) ?W)) = Some ?X"
    unfolding snd_save by (rule e1)
  have b1: "pillow_installed no_faults" "makedirs_fault no_faults dest_dir = None"
    by (simp_all add: no_faults_def)
  have b2: "\<not> path_exists empty_world dest_dir"
    by (simp add: path_exists_def empty_world_def)
  have b3: "image_open no_faults source_path empty_world = Inl ?N"
    by (simp add: image_open_def empty_world_def)
  note th1 = C9_error_leaves_partial_output [of ?E ?W ?W ?I 4 4 1 ?X,
      THEN conjunct1, rule_format]
  note th2 = C9_error_leaves_partial_output [of no_faults empty_world empty_world ?I 4 4 0 ?N,
      THEN conjunct2, rule_format]
  have c1: "snd (run ?E ?W) = 1
      \<and> (\<forall>a\<in>set (take 1 (avatars 4 4)).
            files (fst (run ?E ?W)) (out_path a) = Some (Png (crop_region ?I (box_of a))))
      \<and> (\<forall>p. p \<notin> set (map out_path (take 1 (avatars 4 4)))
               \<and> p \<noteq> out_path (avatars 4 4 ! 1) \<longrightarrow>
            files (fst (run ?E ?W)) p = files ?W p)
      \<and> (files (fst (run ?E ?W)) (out_path (avatars 4 4 ! 1))
            = files ?W (out_path (avatars 4 4 ! 1))
          \<or> files (fst (run ?E ?W)) (out_path (avatars 4 4 ! 1)) = Some Junk)
      \<and> written (effects ?E ?W) = map out_path (take 1 (avatars 4 4))
      \<and> printed ?E ?W
          = map (\<lambda>a. ''Saved '' @ name_of a) (take 1 (avatars 4 4)) @ [handler_line ?X]
      \<and> length (filter (\<lambda>l. take 6 l = ''Saved '') (printed ?E ?W)) = 1
      \<and> dirs (fst (run ?E ?W)) = dirs ?W \<and> dirs ?W \<subseteq> dirs (fst (run ?E ?W))"
    using a1 a2 a3 a4 a5 a6 by (intro th1) simp
  have c2: "snd (run no_faults empty_world) = 1 \<and> dest_dir \<notin> dirs empty_world
      \<and> dest_dir \<in> dirs (fst (run no_faults empty_world))
      \<and> files (fst (run no_faults empty_world)) = files empty_world
      \<and> written (effects no_faults empty_world) = []"
    using b1 b2 b3 by (intro th2) simp
  have av: "take 1 (avatars 4 4) = [(0, 0, 2, 2, ''technical_architect.png'')]"
    "avatars 4 4 ! 1 = (2, 0, 4, 2, ''researcher.png'')"
    by (simp_all add: avatars_def)
  have p1: "out_path (2, 0, 4, 2, ''researcher.png'') = ''public/avatars/researcher.png''"
    and p0: "out_path (0, 0, 2, 2, ''technical_architect.png'') = ''public/avatars/technical_architect.png''"
    by (simp_all add: out_path_def path_join_def dest_dir_def)
  have f0: "files (fst (run ?E ?W)) ''public/avatars/technical_architect.png''
       = Some (Png (crop_region ?I (0, 0, 2, 2)))"
    using c1 unfolding av by (simp add: p0)
  have "case files (fst (run ?E ?W)) ''public/avatars/researcher.png'' of
          None \<Rightarrow> False | Some Junk \<Rightarrow> True | Some (Png c) \<Rightarrow> False"
    by code_simp
  then have f1: "files (fst (run ?E ?W)) ''public/avatars/researcher.png'' = Some Junk"
    by (simp split: option.splits file_content.splits)
  have "files (fst (run ?E ?W)) ''public/avatars/cvpr_researcher.png''
      = files ?W ''public/avatars/cvpr_researcher.png''"
    using c1 unfolding av by (simp add: p0 p1)
  then have f2: "files (fst (run ?E ?W)) ''public/avatars/cvpr_researcher.png'' = None"
    by (simp add: older_world_def source_path_def)
  have wr: "written (effects ?E ?W) = [''public/avatars/technical_architect.png'']"
    using c1 unfolding av by (simp add: p0)
  have pr: "printed ?E ?W = [''Saved technical_architect.png'',
          ''Error: [Errno 28] No space left on device'']"
    using c1 unfolding av by (simp add: handler_line_def is_ImportError_def)
  show ?thesis
    using a1 a2 old a6 c1 f0 f1 f2 wr pr b2 b3 c2 by simp
qed

subsection \<open>C10\<close>

text \<open>
  C10. For a source image of width and height at least 0, each of the four crop
  rectangles (x1, y1, x2, y2) has 0 <= x1 <= x2 <= width and 0 <= y1 <= y2 <= height.
\<close>

theorem C10_crop_boxes_within_bounds:
  assumes "0 \<le> width" "0 \<le> height" "(x1, y1, x2, y2, name) \<in> set (avatars width height)"
  shows "0 \<le> x1 \<and> x1 \<le> x2 \<and> x2 \<le> width \<and> 0 \<le> y1 \<and> y1 \<le> y2 \<and> y2 \<le> height"
proof -
  have "0 \<le> width div 2" "width div 2 \<le> width" "0 \<le> height div 2" "height div 2 \<le> height"
    using assms(1,2) by simp_all
  then show ?thesis
    using assms(3) by (auto simp: avatars_def Let_def)
qed

theorem C10_crop_boxes_within_bounds_witness:
  "(0::int) \<le> 5 \<and> (0::int) \<le> 3
   \<and> (2, 1, 5, 3, ''critical_reviewer.png'') \<in> set (avatars 5 3)
   \<and> (0::int) \<le> 2 \<and> (2::int) \<le> 5 \<and> (5::int) \<le> 5 \<and> (0::int) \<le> 1 \<and> (1::int) \<le> 3 \<and> (3::int) \<le> 3"
proof -
  have m: "(2, 1, 5, 3, ''critical_reviewer.png'') \<in> set (avatars 5 3)"
    by (simp add: avatars_def)
  show ?thesis
    using m C10_crop_boxes_within_bounds [of 5 3 2 1 5 3 "''critical_reviewer.png''"]
    by simp
qed

end
